theory Spec2Isabelle
  imports Complex_Main "HOL-Library.Word" "HOL-Library.Signed_Division"
begin

section \<open>Multi-thread copy of rclone: fs/operations/multithread.go\<close>

text \<open>
  A shallow embedding of the multi-thread copy engine. Go's \<open>int64\<close> is a 64-bit
  word read as two's complement; Go's \<open>int\<close> is fixed at 64 bits as well (its width
  on amd64 and arm64), so the conversions \<open>int(..)\<close> and \<open>int64(..)\<close> of the
  source are identities. Comparisons of the source are the signed ones (\<open><s\<close>,
  \<open>\<le>s\<close>); \<open>+\<close>, \<open>-\<close> and \<open>*\<close> wrap around as in Go.
\<close>

type_synonym int64 = "64 word"

subsection \<open>Go integer division\<close>

text \<open>
  Go's \<open>/\<close> and \<open>%\<close> on signed integers truncate towards zero; the quotient of the
  most negative value by \<open>-1\<close> wraps around. A zero divisor is a run-time panic, which
  the callers below check before they divide.
\<close>

datatype panic = DivideByZero

definition go_div :: "int64 \<Rightarrow> int64 \<Rightarrow> int64" where
  "go_div a b = word_of_int (sint a sdiv sint b)"

definition go_rem :: "int64 \<Rightarrow> int64 \<Rightarrow> int64" where
  "go_rem a b = word_of_int (sint a smod sint b)"

subsection \<open>Range math\<close>

text \<open>\<open>calculateNumChunks\<close> (lines 120-126). \<open>Inl DivideByZero\<close> is the panic of the division.\<close>

definition calculateNumChunks :: "int64 \<Rightarrow> int64 \<Rightarrow> panic + int64" where
  "calculateNumChunks sz chunkSize =
     (if chunkSize = 0 then Inl DivideByZero
      else let numChunks = go_div sz chunkSize;
               numChunks = (if go_rem sz chunkSize \<noteq> 0 then numChunks + 1 else numChunks)
           in Inr numChunks)"

text \<open>The specification's chunk count: the ceiling of the exact quotient.\<close>

definition spec_numChunks :: "int \<Rightarrow> int \<Rightarrow> int" where
  "spec_numChunks sz chunkSize = \<lceil>real_of_int sz / real_of_int chunkSize\<rceil>"

subsection \<open>Errors\<close>

text \<open>
  A Go \<open>error\<close> value is an \<open>error option\<close>, \<open>None\<close> being \<open>nil\<close>. \<open>New\<close> is
  \<open>errors.New\<close> (and \<open>fmt.Errorf\<close> without arguments), \<open>Errorf msg err\<close> is
  \<open>fmt.Errorf(msg + ": %w", err)\<close>, \<open>ErrorfWrote\<close> is the size mismatch of
  \<open>WriteChunk\<close> with its three arguments. The two sentinels are those of package \<open>fs\<close>.
\<close>

datatype error =
    ErrorCantSetModTime
  | ErrorCantSetModTimeWithoutDelete
  | New string
  | Errorf string "error option"
  | ErrorfWrote int64 int64 int64

subsection \<open>The offset writer (lines 244-263)\<close>

text \<open>
  The underlying \<open>io.WriterAt\<close> is a state \<open>'w\<close> with a function that is given the
  bytes and the absolute offset and returns the count, the error and the new state. The
  \<open>offsetWriter\<close> holds the state of its \<open>w\<close> and the current offset.
\<close>

type_synonym byte = "8 word"

type_synonym 'w writerAt = "'w \<Rightarrow> byte list \<Rightarrow> int64 \<Rightarrow> (int64 \<times> error option) \<times> 'w"

record 'w offsetWriter =
  ow_w :: 'w
  ow_off :: int64

definition newOffsetWriter :: "'w \<Rightarrow> int64 \<Rightarrow> 'w offsetWriter" where
  "newOffsetWriter w off = \<lparr>ow_w = w, ow_off = off\<rparr>"

definition Write :: "'w writerAt \<Rightarrow> 'w offsetWriter \<Rightarrow> byte list \<Rightarrow> (int64 \<times> error option) \<times> 'w offsetWriter" where
  "Write WriteAt ow p =
     (let ((n, err), w') = WriteAt (ow_w ow) p (ow_off ow)
      in ((n, err), \<lparr>ow_w = w', ow_off = ow_off ow + n\<rparr>))"

text \<open>A sequence of \<open>Write\<close> calls on one offset writer; the results of the calls in order.\<close>

fun Writes :: "'w writerAt \<Rightarrow> 'w offsetWriter \<Rightarrow> byte list list \<Rightarrow> (int64 \<times> error option) list \<times> 'w offsetWriter" where
  "Writes WriteAt ow [] = ([], ow)"
| "Writes WriteAt ow (p # ps) =
     (let (r, ow') = Write WriteAt ow p;
          (rs, ow'') = Writes WriteAt ow' ps
      in (r # rs, ow''))"

text \<open>
  Observing where writes land: \<open>recording\<close> wraps any \<open>WriteAt\<close> and logs, for each call,
  the absolute offset it was given and the count it reported.
\<close>

definition recording :: "'w writerAt \<Rightarrow> ('w \<times> (int64 \<times> int64) list) writerAt" where
  "recording WriteAt = (\<lambda>(w, calls) p off.
     (let ((n, err), w') = WriteAt w p off in ((n, err), (w', calls @ [(off, n)]))))"

text \<open>
  A fake random-access sink for tests: a map from offsets to bytes that stores every byte
  of \<open>p\<close> from \<open>off\<close> on and reports \<open>len(p)\<close>.
\<close>

fun store :: "(int64 \<rightharpoonup> byte) \<Rightarrow> byte list \<Rightarrow> int64 \<Rightarrow> (int64 \<rightharpoonup> byte)" where
  "store m [] off = m"
| "store m (b # bs) off = store (m(off \<mapsto> b)) bs (off + 1)"

definition sinkWriteAt :: "(int64 \<rightharpoonup> byte) writerAt" where
  "sinkWriteAt m p off = ((word_of_nat (length p), None), store m p off)"

text \<open>
  A \<open>WriteAt\<close> that breaks the contract of \<open>io.WriterAt\<close>: it stores nothing and
  reports the count \<open>-2\<close>.
\<close>

definition brokenWriteAt :: "unit writerAt" where
  "brokenWriteAt w p off = ((- 2, None), w)"

subsection \<open>The adapted chunk writer (lines 265-350)\<close>

record writerAtChunkWriter =
  w_size :: int64
  w_chunkSize :: int64
  w_chunks :: int64
  w_writeBufferSize :: int64

text \<open>
  The writer \<open>WriteChunk\<close> hands to \<open>io.Copy\<close>: the offset writer, or a \<open>bufio.Writer\<close>
  of the given size around it. The offset writer is given by its base offset; its \<open>w\<close> is
  the destination handle of the chunk writer.
\<close>

datatype writer = OffsetWriter int64 | BufioWriter int64 int64

text \<open>
  \<open>WriteChunk\<close> (lines 277-305). \<open>io.Copy\<close> and \<open>Flush\<close> belong to Go's library: their
  outcomes on the writer built here are parameters. The remainder is only computed for
  the last chunk (\<open>&&\<close> is short-circuit), where a zero chunk size panics.
\<close>

definition WriteChunk ::
  "writerAtChunkWriter \<Rightarrow> int64 \<Rightarrow> (writer \<Rightarrow> int64 \<times> error option) \<Rightarrow> (writer \<Rightarrow> error option)
     \<Rightarrow> panic + (int64 \<times> error option)" where
  "WriteChunk w chunkNumber ioCopy Flush =
     (if chunkNumber = w_chunks w - 1 \<and> w_chunkSize w = 0 then Inl DivideByZero
      else
        let bytesToWrite =
              (if chunkNumber = w_chunks w - 1 \<and> go_rem (w_size w) (w_chunkSize w) \<noteq> 0
               then go_rem (w_size w) (w_chunkSize w) else w_chunkSize w);
            writer =
              (if 0 <s w_writeBufferSize w
               then BufioWriter (chunkNumber * w_chunkSize w) (w_writeBufferSize w)
               else OffsetWriter (chunkNumber * w_chunkSize w));
            (n, err) = ioCopy writer
        in if err \<noteq> None then Inr (- 1, err)
           else if n \<noteq> bytesToWrite then Inr (- 1, Some (ErrorfWrote bytesToWrite chunkNumber n))
           else (case writer of
                   BufioWriter _ _ \<Rightarrow>
                     (case Flush writer of
                        Some er2 \<Rightarrow> Inr (- 1, Some (Errorf ''multi-thread copy: flush failed'' err))
                      | None \<Rightarrow> Inr (n, None))
                 | OffsetWriter _ \<Rightarrow> Inr (n, None)))"

text \<open>The specification's expected byte count of a chunk, on the integers.\<close>

definition spec_expectedBytes :: "int \<Rightarrow> int \<Rightarrow> int \<Rightarrow> int" where
  "spec_expectedBytes sz chunkSize index =
     (if index = spec_numChunks sz chunkSize - 1 \<and> sz mod chunkSize \<noteq> 0
      then sz mod chunkSize else chunkSize)"

subsection \<open>Collaborators\<close>

text \<open>
  Modelled from the spec: the type \<open>fs.ChunkWriterInfo\<close>, which is declared outside this
  file, with the fields the specification lists and the code reads and writes.
\<close>

record ChunkWriterInfo =
  ChunkSize :: int64
  Concurrency :: int64
  LeavePartsOnError :: bool

datatype object = Object string

text \<open>The configuration \<open>ci\<close> read through \<open>fs.GetConfig\<close>.\<close>

record config =
  MultiThreadSet :: bool
  MultiThreadStreams :: int64
  MultiThreadChunkSize :: int64
  MultiThreadWriteBufferSize :: int64

text \<open>
  The destination \<open>f\<close> and what its calls answer. A feature that is \<open>nil\<close> is \<open>None\<close>;
  otherwise the field holds what the call returns. The native chunk writer's methods and
  the calls the adapted writer makes on the destination are fields as well; those made
  for a chunk take the chunk number.
\<close>

record dest =
  OpenChunkWriter :: "(error + ChunkWriterInfo) option"
  OpenWriterAt :: "error option option"
  PartialUploads :: bool
  NewObject :: "error + object"
  SetModTime :: "error option"
  nativeWriteChunk :: "int64 \<Rightarrow> int64 \<times> error option"
  nativeClose :: "error option"
  nativeAbort :: "error option"
  writerAtClose :: "error option"
  ioCopy :: "int64 \<Rightarrow> writer \<Rightarrow> int64 \<times> error option"
  Flush :: "int64 \<Rightarrow> writer \<Rightarrow> error option"
  abortNewObject :: "error option"
  Remove :: "error option"

text \<open>
  The source object: its size, \<open>operations.Open\<close> with the range's \<open>Start\<close> and
  \<open>End\<close>, and per chunk the outcome of \<open>io.CopyN\<close> into the buffer and of closing the
  reader and the buffer.
\<close>

record source =
  srcSize :: int64
  Open :: "int64 \<Rightarrow> int64 \<Rightarrow> error option"
  CopyN :: "int64 \<Rightarrow> int64 \<Rightarrow> error option"
  rcClose :: "int64 \<Rightarrow> error option"
  rwClose :: "int64 \<Rightarrow> error option"

text \<open>
  The scheduler: whether the group's context already carries an error when the spawn loop
  tests it before a chunk, and the order in which the chunk copies finish. Any values are
  admitted, so that the model covers every interleaving (and a context cancelled from
  outside).
\<close>

record sched =
  ctxErr :: "nat \<Rightarrow> bool"
  finishOrder :: "nat list"

subsection \<open>The chunk writer, native or adapted\<close>

datatype chunkWriter = NativeChunkWriter | AdaptedChunkWriter writerAtChunkWriter

definition writer_WriteChunk :: "dest \<Rightarrow> chunkWriter \<Rightarrow> int64 \<Rightarrow> panic + (int64 \<times> error option)" where
  "writer_WriteChunk f writer chunk =
     (case writer of
        NativeChunkWriter \<Rightarrow> Inr (nativeWriteChunk f chunk)
      | AdaptedChunkWriter w \<Rightarrow> WriteChunk w chunk (ioCopy f chunk) (Flush f chunk))"

text \<open>\<open>Close\<close> (lines 308-310) and \<open>Abort\<close> (lines 313-319) of the adapted writer.\<close>

definition writer_Close :: "dest \<Rightarrow> chunkWriter \<Rightarrow> error option" where
  "writer_Close f writer =
     (case writer of NativeChunkWriter \<Rightarrow> nativeClose f | AdaptedChunkWriter w \<Rightarrow> writerAtClose f)"

definition writer_Abort :: "dest \<Rightarrow> chunkWriter \<Rightarrow> error option" where
  "writer_Abort f writer =
     (case writer of
        NativeChunkWriter \<Rightarrow> nativeAbort f
      | AdaptedChunkWriter w \<Rightarrow>
          (case abortNewObject f of
             Some err \<Rightarrow> Some (Errorf ''multi-thread copy: failed to find temp file when aborting chunk writer'' (Some err))
           | None \<Rightarrow> Remove f))"

subsection \<open>The chunk copier (lines 54-116)\<close>

record multiThreadCopyState =
  mc_partSize :: int64
  mc_size :: int64
  mc_numChunks :: int64
  mc_noSeek :: bool

text \<open>
  The byte range of a chunk (lines 72-79): \<open>None\<close> when \<open>start >= mc.size\<close>, where
  \<open>copyChunk\<close> returns at once; otherwise \<open>start\<close> and \<open>end\<close>.
\<close>

definition chunkRange :: "multiThreadCopyState \<Rightarrow> int64 \<Rightarrow> (int64 \<times> int64) option" where
  "chunkRange mc chunk =
     (let start = chunk * mc_partSize mc
      in if mc_size mc \<le>s start then None
         else let end = start + mc_partSize mc;
                  end = (if mc_size mc <s end then mc_size mc else end)
              in Some (start, end))"

text \<open>
  The byte offsets of chunk \<open>i\<close> as the copier computes them: from \<open>start\<close> up to,
  not including, \<open>end\<close>; none when the copier skips the chunk.
\<close>

definition chunkBytes :: "multiThreadCopyState \<Rightarrow> nat \<Rightarrow> int set" where
  "chunkBytes mc i =
     (case chunkRange mc (word_of_nat i) of
        None \<Rightarrow> {}
      | Some (start, end) \<Rightarrow> {sint start ..< sint end})"

text \<open>
  Modelled from the spec: the helper \<open>fs.CheckClose(c, &err)\<close>, which is declared
  outside this file. A stream is closed on every exit path, and the error of closing it
  becomes the function's error when there is none yet.
\<close>

definition CheckClose :: "error option \<Rightarrow> error option \<Rightarrow> error option" where
  "CheckClose cerr err = (if err = None then cerr else err)"

text \<open>
  \<open>copyChunk\<close>. The deferred closes run in reverse order of their registration: the
  buffer \<open>rw\<close> first, then the reader \<open>rc\<close>. A panic of \<open>WriteChunk\<close> is passed on.
\<close>

definition copyChunk ::
  "dest \<Rightarrow> source \<Rightarrow> multiThreadCopyState \<Rightarrow> int64 \<Rightarrow> chunkWriter \<Rightarrow> panic + error option" where
  "copyChunk f src mc chunk writer =
     (case chunkRange mc chunk of
        None \<Rightarrow> Inr None
      | Some (start, end) \<Rightarrow>
          let sz = end - start
          in case Open src start (end - 1) of
               Some err \<Rightarrow> Inr (Some (Errorf ''multi-thread copy: failed to open source'' (Some err)))
             | None \<Rightarrow>
                 if mc_noSeek mc then
                   (case writer_WriteChunk f writer chunk of
                      Inl p \<Rightarrow> Inl p
                    | Inr (bytesWritten, Some err) \<Rightarrow>
                        Inr (CheckClose (rcClose src chunk)
                              (Some (Errorf ''multi-thread copy: failed to write chunk'' (Some err))))
                    | Inr (bytesWritten, None) \<Rightarrow> Inr (CheckClose (rcClose src chunk) None))
                 else
                   (case CopyN src chunk sz of
                      Some err \<Rightarrow>
                        Inr (CheckClose (rcClose src chunk) (CheckClose (rwClose src chunk)
                              (Some (Errorf ''multi-thread copy: failed to read chunk'' (Some err)))))
                    | None \<Rightarrow>
                        (case writer_WriteChunk f writer chunk of
                           Inl p \<Rightarrow> Inl p
                         | Inr (bytesWritten, Some err) \<Rightarrow>
                             Inr (CheckClose (rcClose src chunk) (CheckClose (rwClose src chunk)
                                   (Some (Errorf ''multi-thread copy: failed to write chunk'' (Some err)))))
                         | Inr (bytesWritten, None) \<Rightarrow>
                             Inr (CheckClose (rcClose src chunk) (CheckClose (rwClose src chunk) None)))))"

subsection \<open>The planner (lines 170-188 of \<open>multiThreadCopy\<close>)\<close>

text \<open>Lines 170-173: a chunk size bigger than the source is replaced by the source's size.\<close>

definition capChunkSize :: "ChunkWriterInfo \<Rightarrow> int64 \<Rightarrow> ChunkWriterInfo" where
  "capChunkSize info sz = (if sz <s ChunkSize info then info\<lparr>ChunkSize := sz\<rparr> else info)"

text \<open>Lines 176-188: the concurrency given to \<open>g.SetLimit\<close>.\<close>

definition planConcurrency :: "config \<Rightarrow> ChunkWriterInfo \<Rightarrow> int64 \<Rightarrow> int64 \<Rightarrow> int64" where
  "planConcurrency ci info numChunks concurrency =
     (let concurrency = (if numChunks <s concurrency then numChunks else concurrency);
          concurrency = (if \<not> MultiThreadSet ci \<or> concurrency <s Concurrency info
                         then Concurrency info else concurrency);
          concurrency = (if concurrency <s 1 then 1 else concurrency)
      in concurrency)"

subsection \<open>The worker pool\<close>

text \<open>
  The spawn loop (lines 206-215): the chunks handed to \<open>g.Go\<close>, in order, until the
  context carries an error.
\<close>

function spawnLoop :: "(nat \<Rightarrow> bool) \<Rightarrow> nat \<Rightarrow> nat \<Rightarrow> nat list" where
  "spawnLoop cancelled chunk numChunks =
     (if chunk < numChunks
      then (if cancelled chunk then [] else chunk # spawnLoop cancelled (Suc chunk) numChunks)
      else [])"
  by pat_completeness auto
termination
  by (relation "measure (\<lambda>(cancelled, chunk, numChunks). numChunks - chunk)") auto

text \<open>
  \<open>g.Wait()\<close> of \<open>errgroup\<close> (a library outside this repository): the first error that
  a spawned function returned, first in the order the functions finished; \<open>nil\<close> when
  none returned an error. A panic in a spawned function ends the program.
\<close>

definition Wait :: "nat list \<Rightarrow> nat list \<Rightarrow> (nat \<Rightarrow> panic + error option) \<Rightarrow> panic + error option" where
  "Wait order spawned result =
     (if \<exists>c \<in> set spawned. isl (result c) then Inl DivideByZero
      else case filter (\<lambda>c. result c \<noteq> Inr None) (filter (\<lambda>c. c \<in> set spawned) order @ spawned) of
             [] \<Rightarrow> Inr None
           | c # _ \<Rightarrow> result c)"

subsection \<open>The coordinator (lines 128-242)\<close>

text \<open>
  What a run does to its collaborators, in order: the calls that open the writer with
  what they returned, the limit of the pool, the chunks handed to the pool, \<open>g.Wait\<close>
  with its error, \<open>Close\<close> and \<open>Abort\<close> with theirs, the lookup of the new object,
  setting its modification time, and cancelling the upload context.
\<close>

datatype event =
    EvOpenWriterAt "error option"
  | EvOpenChunkWriter "error + ChunkWriterInfo"
  | EvSetLimit int64
  | EvGo nat
  | EvWait "error option"
  | EvClose "error option"
  | EvNewObject
  | EvSetModTime
  | EvCancel
  | EvAbort "error option"

type_synonym opened = "(panic + (error + ChunkWriterInfo \<times> chunkWriter)) \<times> event list"

text \<open>
  \<open>openChunkWriterFromOpenWriterAt\<close> (lines 322-350): the function it returns, called
  on the source. \<open>calculateNumChunks\<close> may panic after the destination was opened.
\<close>

definition openChunkWriterFromOpenWriterAt ::
  "error option \<Rightarrow> int64 \<Rightarrow> int64 \<Rightarrow> config \<Rightarrow> source \<Rightarrow> opened" where
  "openChunkWriterFromOpenWriterAt openWriterAt chunkSize writeBufferSize ci src =
     (case openWriterAt of
        Some err \<Rightarrow> (Inr (Inl err), [EvOpenWriterAt (Some err)])
      | None \<Rightarrow>
          (case calculateNumChunks (srcSize src) chunkSize of
             Inl p \<Rightarrow> (Inl p, [EvOpenWriterAt None])
           | Inr chunks \<Rightarrow>
               (Inr (Inr (\<lparr>ChunkSize = chunkSize, Concurrency = MultiThreadStreams ci,
                            LeavePartsOnError = False\<rparr>,
                          AdaptedChunkWriter \<lparr>w_size = srcSize src, w_chunkSize = chunkSize,
                            w_chunks = chunks, w_writeBufferSize = writeBufferSize\<rparr>)),
                [EvOpenWriterAt None])))"

text \<open>The destination's own \<open>OpenChunkWriter\<close>, called: its writer is the native one.\<close>

definition nativeOpenChunkWriter :: "error + ChunkWriterInfo \<Rightarrow> opened" where
  "nativeOpenChunkWriter r =
     (case r of Inl err \<Rightarrow> (Inr (Inl err), []) | Inr info \<Rightarrow> (Inr (Inr (info, NativeChunkWriter)), []))"

text \<open>Lines 131-142: the opener to use and \<open>noseek\<close>, or the error returned at line 137.\<close>

definition selectOpenChunkWriter :: "config \<Rightarrow> dest \<Rightarrow> source \<Rightarrow> error + opened \<times> bool" where
  "selectOpenChunkWriter ci f src =
     (case OpenChunkWriter f of
        Some r \<Rightarrow> Inr (nativeOpenChunkWriter r, False)
      | None \<Rightarrow>
          (case OpenWriterAt f of
             None \<Rightarrow> Inl (New ''multi-thread copy: neither OpenChunkWriter nor OpenWriterAt supported'')
           | Some openWriterAt \<Rightarrow>
               Inr (openChunkWriterFromOpenWriterAt openWriterAt (MultiThreadChunkSize ci)
                      (MultiThreadWriteBufferSize ci) ci src, True)))"

text \<open>
  Modelled from the spec: the helper \<open>atexit.OnError\<close>, which is declared outside this
  file. The function it returns, once deferred, runs the given function when the
  surrounding function exits with a non-nil error, and does nothing otherwise.

  With it, the two deferred calls (lines 156-168), run last-registered first when the
  function returns with \<open>err\<close> or panics. The error of \<open>Abort\<close> is only logged.
\<close>

definition deferred :: "dest \<Rightarrow> ChunkWriterInfo \<Rightarrow> chunkWriter \<Rightarrow> error option \<Rightarrow> event list" where
  "deferred f info chunkWriter err =
     (if err \<noteq> None
      then EvCancel # (if LeavePartsOnError info then [] else [EvAbort (writer_Abort f chunkWriter)])
      else []) @ [EvCancel]"

text \<open>Lines 217-241: after \<open>g.Wait()\<close> returned \<open>err\<close>, up to the \<open>return\<close>.\<close>

definition finish :: "dest \<Rightarrow> chunkWriter \<Rightarrow> error option \<Rightarrow> (object option \<times> error option) \<times> event list" where
  "finish f chunkWriter err =
     (let closeErr = writer_Close f chunkWriter;
          tr = [EvWait err, EvClose closeErr]
      in if err \<noteq> None then ((None, err), tr)
         else if closeErr \<noteq> None
         then ((None, Some (Errorf ''multi-thread copy: failed to close object after copy'' closeErr)), tr)
         else (case NewObject f of
                 Inl err \<Rightarrow>
                   ((None, Some (Errorf ''multi-thread copy: failed to find object after copy'' (Some err))),
                    tr @ [EvNewObject])
               | Inr obj \<Rightarrow>
                   if PartialUploads f
                   then (if SetModTime f \<in> {None, Some ErrorCantSetModTime, Some ErrorCantSetModTimeWithoutDelete}
                         then ((Some obj, None), tr @ [EvNewObject, EvSetModTime])
                         else ((None, Some (Errorf ''multi-thread copy: failed to set modification time'' (SetModTime f))),
                               tr @ [EvNewObject, EvSetModTime]))
                   else ((Some obj, None), tr @ [EvNewObject])))"

text \<open>
  Lines 156-241, once the writer is open. A panic of \<open>calculateNumChunks\<close> runs the
  deferred calls with a nil error; a panic in a worker ends the program.
\<close>

definition transfer ::
  "config \<Rightarrow> dest \<Rightarrow> source \<Rightarrow> sched \<Rightarrow> int64 \<Rightarrow> bool \<Rightarrow> ChunkWriterInfo \<Rightarrow> chunkWriter
     \<Rightarrow> (panic + (object option \<times> error option)) \<times> event list" where
  "transfer ci f src sch concurrency noseek info chunkWriter =
     (let info = capChunkSize info (srcSize src)
      in case calculateNumChunks (srcSize src) (ChunkSize info) of
           Inl p \<Rightarrow> (Inl p, deferred f info chunkWriter None)
         | Inr numChunks \<Rightarrow>
             let concurrency = planConcurrency ci info numChunks concurrency;
                 mc = \<lparr>mc_partSize = ChunkSize info, mc_size = srcSize src,
                       mc_numChunks = numChunks, mc_noSeek = noseek\<rparr>;
                 spawned = spawnLoop (ctxErr sch) 0 (nat (sint (mc_numChunks mc)));
                 tr = EvSetLimit concurrency # map EvGo spawned
             in case Wait (finishOrder sch) spawned
                       (\<lambda>chunk. copyChunk f src mc (word_of_nat chunk) chunkWriter) of
                  Inl p \<Rightarrow> (Inl p, tr)
                | Inr err \<Rightarrow>
                    let (res, tr') = finish f chunkWriter err
                    in (Inr res, tr @ tr' @ deferred f info chunkWriter (snd res)))"

definition multiThreadCopy ::
  "config \<Rightarrow> dest \<Rightarrow> source \<Rightarrow> sched \<Rightarrow> int64
     \<Rightarrow> (panic + (object option \<times> error option)) \<times> event list" where
  "multiThreadCopy ci f src sch concurrency =
     (case selectOpenChunkWriter ci f src of
        Inl err \<Rightarrow> (Inr (None, Some err), [])
      | Inr (openChunkWriter, noseek) \<Rightarrow>
          if srcSize src <s 0
          then (Inr (None, Some (New (''multi-thread copy: can'' @ [CHR 0x27] @ ''t copy unknown sized file''))), [])
          else if srcSize src = 0
          then (Inr (None, Some (New (''multi-thread copy: can'' @ [CHR 0x27] @ ''t copy zero sized file''))), [])
          else (case openChunkWriter of
                  (Inl p, tr) \<Rightarrow> (Inl p, tr)
                | (Inr (Inl err), tr) \<Rightarrow>
                    (Inr (None, Some (Errorf ''multi-thread copy: failed to open chunk writer'' (Some err))),
                     tr @ [EvOpenChunkWriter (Inl err)])
                | (Inr (Inr (info, chunkWriter)), tr) \<Rightarrow>
                    (let (res, tr') = transfer ci f src sch concurrency noseek info chunkWriter
                     in (res, tr @ EvOpenChunkWriter (Inr info) # tr'))))"

text \<open>How often a run called \<open>Abort\<close>, and how often \<open>Close\<close>.\<close>

definition aborts :: "event list \<Rightarrow> nat" where
  "aborts tr = length (filter (\<lambda>e. case e of EvAbort _ \<Rightarrow> True | _ \<Rightarrow> False) tr)"

definition closes :: "event list \<Rightarrow> nat" where
  "closes tr = length (filter (\<lambda>e. case e of EvClose _ \<Rightarrow> True | _ \<Rightarrow> False) tr)"

subsection \<open>Example runs\<close>

text \<open>
  Collaborators for concrete runs: a destination with a native chunk writer whose calls
  all succeed, a source of a given size whose reads succeed, and a scheduler under which
  no cancellation is seen.
\<close>

definition ex_ci :: config where
  "ex_ci = \<lparr>MultiThreadSet = True, MultiThreadStreams = 4, MultiThreadChunkSize = 64,
     MultiThreadWriteBufferSize = 0\<rparr>"

definition ex_info :: ChunkWriterInfo where
  "ex_info = \<lparr>ChunkSize = 64, Concurrency = 4, LeavePartsOnError = False\<rparr>"

definition ex_dest :: dest where
  "ex_dest = \<lparr>OpenChunkWriter = Some (Inr ex_info), OpenWriterAt = None, PartialUploads = False,
     NewObject = Inr (Object ''dst''), SetModTime = None,
     nativeWriteChunk = (\<lambda>chunk. (64, None)), nativeClose = None, nativeAbort = None,
     writerAtClose = None, ioCopy = (\<lambda>chunk writer. (64, None)), Flush = (\<lambda>chunk writer. None),
     abortNewObject = None, Remove = None\<rparr>"

definition ex_src :: "int64 \<Rightarrow> source" where
  "ex_src sz = \<lparr>srcSize = sz, Open = (\<lambda>start end. None), CopyN = (\<lambda>chunk n. None),
     rcClose = (\<lambda>chunk. None), rwClose = (\<lambda>chunk. None)\<rparr>"

definition ex_sched :: sched where
  "ex_sched = \<lparr>ctxErr = (\<lambda>chunk. False), finishOrder = []\<rparr>"

subsection \<open>Range math: theorems\<close>

lemma sint_word_of_int_64:
  "- (2 ^ 63) \<le> k \<Longrightarrow> k < 2 ^ 63 \<Longrightarrow> sint (word_of_int k :: int64) = k"
  by (simp add: sint_sbintrunc' signed_take_bit_int_eq_self_iff)

lemma sint_bounds_64: "- (2 ^ 63) \<le> sint (w :: int64)" "sint (w :: int64) < 2 ^ 63"
  using sint_ge [of w] sint_lt [of w] by simp_all

lemma sdiv_pos: "0 \<le> a \<Longrightarrow> 0 < b \<Longrightarrow> (a :: int) sdiv b = a div b"
  by (cases "a = 0") (simp_all add: signed_divide_int_def)

lemma smod_pos: "0 \<le> a \<Longrightarrow> 0 < b \<Longrightarrow> (a :: int) smod b = a mod b"
  by (cases "a = 0") (simp_all add: signed_modulo_int_def)

lemma div_le_self_int: "0 \<le> a \<Longrightarrow> 0 < b \<Longrightarrow> (a :: int) div b \<le> a"
  using zdiv_mono2 [of a 1 b] by simp

lemma sint_go_div_pos:
  assumes "0 \<le> sint a" "0 < sint b"
  shows "sint (go_div a b) = sint a div sint b"
proof -
  have "0 \<le> sint a div sint b" using assms by (simp add: pos_imp_zdiv_nonneg_iff)
  moreover have "sint a div sint b \<le> sint a"
    using assms by (rule div_le_self_int)
  ultimately have "- (2 ^ 63) \<le> sint a div sint b" "sint a div sint b < 2 ^ 63"
    using sint_bounds_64 [of a] by linarith+
  then show ?thesis
    using assms by (simp add: go_div_def sdiv_pos sint_word_of_int_64)
qed

lemma sint_go_rem_pos:
  assumes "0 \<le> sint a" "0 < sint b"
  shows "sint (go_rem a b) = sint a mod sint b"
proof -
  have "0 \<le> sint a mod sint b" "sint a mod sint b < sint b"
    using assms by simp_all
  then have "- (2 ^ 63) \<le> sint a mod sint b" "sint a mod sint b < 2 ^ 63"
    using sint_bounds_64 [of b] by linarith+
  then show ?thesis
    using assms by (simp add: go_rem_def smod_pos sint_word_of_int_64)
qed

lemma spec_numChunks_div:
  assumes "0 < b"
  shows "spec_numChunks a b = (if a mod b = 0 then a div b else a div b + 1)"
  using assms by (simp add: spec_numChunks_def ceiling_divide_eq_div zdiv_zminus1_eq_if)

lemma sint_eq_zero_iff: "sint (w :: int64) = 0 \<longleftrightarrow> w = 0"
  by (simp add: signed_eq_0_iff)

lemma sint_calculateNumChunks:
  assumes "0 < sint sz" "0 < sint chunkSize"
  shows "\<exists>n. calculateNumChunks sz chunkSize = Inr n \<and> sint n = spec_numChunks (sint sz) (sint chunkSize)"
proof -
  let ?a = "sint sz" and ?b = "sint chunkSize"
  have b0: "chunkSize \<noteq> 0" using assms by auto
  have q: "sint (go_div sz chunkSize) = ?a div ?b" using assms by (simp add: sint_go_div_pos)
  have r: "sint (go_rem sz chunkSize) = ?a mod ?b" using assms by (simp add: sint_go_rem_pos)
  have r0: "go_rem sz chunkSize = 0 \<longleftrightarrow> ?a mod ?b = 0"
    using r sint_eq_zero_iff by metis
  show ?thesis
  proof (cases "?a mod ?b = 0")
    case True
    then show ?thesis using b0 q r0 assms
      by (simp add: calculateNumChunks_def spec_numChunks_div)
  next
    case False
    have "?a = ?a div ?b * ?b + ?a mod ?b" by simp
    moreover have "0 < ?a mod ?b" using False pos_mod_sign [of ?b ?a] assms by linarith
    moreover have lo: "0 \<le> ?a div ?b" using assms by (simp add: pos_imp_zdiv_nonneg_iff)
    then have "?a div ?b * 1 \<le> ?a div ?b * ?b"
      using assms by (intro mult_left_mono) auto
    ultimately have "?a div ?b < ?a" by linarith
    then have up: "?a div ?b + 1 < 2 ^ 63" using sint_bounds_64 [of sz] by linarith
    have "sint (go_div sz chunkSize + 1) = ?a div ?b + 1"
      using up lo q
      by (simp add: sint_word_add signed_take_bit_int_eq_self_iff)
    then show ?thesis using b0 r0 False assms
      by (simp add: calculateNumChunks_def spec_numChunks_div Let_def)
  qed
qed

lemma spec_numChunks_bounds:
  assumes "0 < (b::int)"
  shows "a \<le> spec_numChunks a b * b" "(spec_numChunks a b - 1) * b < a"
proof -
  have eq: "a div b * b + a mod b = a" by simp
  have m: "0 \<le> a mod b" "a mod b < b" using assms by simp_all
  show "a \<le> spec_numChunks a b * b"
  proof (cases "a mod b = 0")
    case True then show ?thesis using assms eq by (simp add: spec_numChunks_div)
  next
    case False
    then have "spec_numChunks a b * b = a div b * b + b"
      using assms by (simp add: spec_numChunks_div algebra_simps)
    then show ?thesis using eq m by linarith
  qed
  show "(spec_numChunks a b - 1) * b < a"
  proof (cases "a mod b = 0")
    case True
    then have "(spec_numChunks a b - 1) * b = a div b * b - b"
      using assms by (simp add: spec_numChunks_div algebra_simps)
    then show ?thesis using eq True assms by linarith
  next
    case False
    then have "(spec_numChunks a b - 1) * b = a div b * b" "0 < a mod b"
      using assms m by (simp_all add: spec_numChunks_div)
    then show ?thesis using eq by linarith
  qed
qed

text \<open>
  Claim C2. For every size > 0 and chunk size > 0, \<open>calculateNumChunks\<close> returns (it
  does not panic) the ceiling of size / chunk size: the count of chunks times the chunk
  size is at least the size, and one chunk fewer would not cover it. The products are
  those of the integers.
\<close>

theorem calculateNumChunks_ceil:
  assumes "0 <s sz" "0 <s chunkSize"
  shows "\<exists>n. calculateNumChunks sz chunkSize = Inr n
            \<and> sint n = spec_numChunks (sint sz) (sint chunkSize)
            \<and> sint sz \<le> sint n * sint chunkSize
            \<and> (sint n - 1) * sint chunkSize < sint sz"
proof -
  let ?a = "sint sz" and ?b = "sint chunkSize"
  have pos: "0 < ?a" "0 < ?b" using assms by (simp_all add: word_sless_alt)
  obtain n where n: "calculateNumChunks sz chunkSize = Inr n"
      "sint n = spec_numChunks ?a ?b"
    using sint_calculateNumChunks [OF pos] by blast
  show ?thesis using n spec_numChunks_bounds [OF pos(2), of ?a] by simp
qed

theorem calculateNumChunks_ceil_witness:
  "(0::int64) <s 150 \<and> (0::int64) <s 64 \<and> (\<exists>n. calculateNumChunks 150 64 = Inr n
            \<and> sint n = spec_numChunks (sint (150::int64)) (sint (64::int64))
            \<and> sint (150::int64) \<le> sint n * sint (64::int64)
            \<and> (sint n - 1) * sint (64::int64) < sint (150::int64))"
proof -
  have h1: "(0::int64) <s 150" and h2: "(0::int64) <s 64" by (simp_all add: word_sless_alt)
  from calculateNumChunks_ceil [OF h1 h2] h1 h2 show ?thesis by blast
qed

subsection \<open>The planner and the shape of a run\<close>

declare spawnLoop.simps [simp del]

lemma planConcurrency_ge1: "1 \<le>s planConcurrency ci info n conc"
  by (simp add: planConcurrency_def Let_def word_sle_eq word_sless_alt)

lemma planConcurrency_le_iff:
  "1 \<le>s n \<Longrightarrow> planConcurrency ci info n conc \<le>s n \<longleftrightarrow> Concurrency info \<le>s n"
  by (auto simp add: planConcurrency_def Let_def word_sle_eq word_sless_alt)

lemma planConcurrency_eq:
  "planConcurrency ci info n conc =
     (let clamped = (if n <s conc then n else conc);
          chosen = (if MultiThreadSet ci \<and> Concurrency info \<le>s clamped then clamped else Concurrency info)
      in if chosen <s 1 then 1 else chosen)"
  by (auto simp add: planConcurrency_def Let_def word_sle_eq word_sless_alt)

lemma capChunkSize_pos:
  "0 <s sz \<Longrightarrow> 0 <s ChunkSize info \<Longrightarrow> 0 <s ChunkSize (capChunkSize info sz)"
  by (simp add: capChunkSize_def)

lemma capChunkSize_fields [simp]:
  "Concurrency (capChunkSize info sz) = Concurrency info"
  "LeavePartsOnError (capChunkSize info sz) = LeavePartsOnError info"
  by (simp_all add: capChunkSize_def)

lemma numChunks_ge1:
  assumes "0 <s sz" "0 <s chunkSize"
  shows "\<exists>n. calculateNumChunks sz chunkSize = Inr n \<and> 1 \<le>s n"
proof -
  have pos: "0 < sint sz" "0 < sint chunkSize" using assms by (simp_all add: word_sless_alt)
  obtain n where n: "calculateNumChunks sz chunkSize = Inr n"
      "sint n = spec_numChunks (sint sz) (sint chunkSize)"
    using sint_calculateNumChunks [OF pos] by blast
  have "sint sz \<le> sint n * sint chunkSize"
    using n spec_numChunks_bounds(1) [OF pos(2), of "sint sz"] by simp
  then have "0 < sint n * sint chunkSize" using pos by linarith
  then have "0 < sint n" using pos by (simp add: zero_less_mult_iff)
  then show ?thesis using n by (simp add: word_sle_eq)
qed

text \<open>The shape of a run's trace.\<close>

lemma deferred_events:
  "e \<in> set (deferred f info w err) \<Longrightarrow> e = EvCancel \<or> (\<exists>a. e = EvAbort a)"
  by (auto simp add: deferred_def split: if_splits)

lemma finish_events:
  "e \<in> set (snd (finish f w err)) \<Longrightarrow>
     (\<exists>x. e = EvWait x) \<or> (\<exists>x. e = EvClose x) \<or> e = EvNewObject \<or> e = EvSetModTime"
  by (auto simp add: finish_def Let_def split: sum.splits if_splits)

lemma transfer_no_open:
  "EvOpenChunkWriter x \<notin> set (snd (transfer ci f src sch conc noseek info w))"
  by (auto simp add: transfer_def Let_def case_prod_beta split: sum.splits
        dest: deferred_events finish_events)

lemma transfer_SetLimit:
  assumes "EvSetLimit c \<in> set (snd (transfer ci f src sch conc noseek info w))"
  shows "\<exists>n. calculateNumChunks (srcSize src) (ChunkSize (capChunkSize info (srcSize src))) = Inr n
           \<and> c = planConcurrency ci (capChunkSize info (srcSize src)) n conc"
  using assms
  by (auto simp add: transfer_def Let_def case_prod_beta split: sum.splits
        dest: deferred_events finish_events)

text \<open>A run that opened its writer is the run of \<open>transfer\<close> after the events of the open.\<close>

lemma selected_events:
  assumes "selectOpenChunkWriter ci f src = Inr ((r, tr0), noseek)"
  shows "set tr0 \<subseteq> range EvOpenWriterAt"
  using assms
  by (auto simp add: selectOpenChunkWriter_def nativeOpenChunkWriter_def
        openChunkWriterFromOpenWriterAt_def split: option.splits sum.splits)

lemma multiThreadCopy_opened:
  assumes "EvOpenChunkWriter (Inr info) \<in> set (snd (multiThreadCopy ci f src sch conc))"
  shows "\<exists>w noseek tr0. selectOpenChunkWriter ci f src = Inr ((Inr (Inr (info, w)), tr0), noseek)
           \<and> 0 <s srcSize src
           \<and> multiThreadCopy ci f src sch conc =
               (fst (transfer ci f src sch conc noseek info w),
                tr0 @ EvOpenChunkWriter (Inr info) # snd (transfer ci f src sch conc noseek info w))"
proof (cases "selectOpenChunkWriter ci f src")
  case (Inl e)
  then show ?thesis using assms by (simp add: multiThreadCopy_def)
next
  case (Inr x)
  then obtain r tr0 noseek where sel: "selectOpenChunkWriter ci f src = Inr ((r, tr0), noseek)"
    by (cases x) auto
  have tr0: "EvOpenChunkWriter (Inr info) \<notin> set tr0"
    using selected_events [OF sel] by auto
  have pos: "0 <s srcSize src"
    using assms sel
    by (auto simp add: multiThreadCopy_def word_sless_alt word_sle_eq signed_eq_0_iff
          split: if_splits) (metis linorder_neqE_linordered_idom signed_eq_0_iff)
  show ?thesis
  proof (cases r)
    case (Inl p)
    then show ?thesis using assms sel tr0 by (auto simp add: multiThreadCopy_def split: if_splits)
  next
    case (Inr r')
    show ?thesis
    proof (cases r')
      case (Inl e)
      then show ?thesis using assms sel tr0 Inr
        by (auto simp add: multiThreadCopy_def split: if_splits)
    next
      case (Inr iw)
      obtain info' w where iw: "iw = (info', w)" by (cases iw)
      have "info' = info"
        using assms sel tr0 Inr \<open>r = Inr r'\<close> iw transfer_no_open
        by (auto simp add: multiThreadCopy_def case_prod_beta split: if_splits)
      then show ?thesis
        using sel Inr \<open>r = Inr r'\<close> iw pos assms
        by (auto simp add: multiThreadCopy_def case_prod_beta split: if_splits)
    qed
  qed
qed

subsection \<open>The planned concurrency\<close>

text \<open>
  Claim C1, as amended. When the writer was opened with a positive chunk size, the
  concurrency given to the pool is at least 1, and it is at most the number of chunks
  exactly when the concurrency the backend prefers is at most the number of chunks.
\<close>

theorem planned_concurrency:
  assumes "EvOpenChunkWriter (Inr info) \<in> set (snd (multiThreadCopy ci f src sch conc))"
      and "EvSetLimit c \<in> set (snd (multiThreadCopy ci f src sch conc))"
      and "0 <s ChunkSize info"
  shows "\<exists>n. calculateNumChunks (srcSize src) (ChunkSize (capChunkSize info (srcSize src))) = Inr n
           \<and> 1 \<le>s n \<and> 1 \<le>s c \<and> (c \<le>s n \<longleftrightarrow> Concurrency info \<le>s n)"
proof -
  obtain w noseek tr0 where
    sel: "selectOpenChunkWriter ci f src = Inr ((Inr (Inr (info, w)), tr0), noseek)" and
    pos: "0 <s srcSize src" and
    run: "multiThreadCopy ci f src sch conc =
               (fst (transfer ci f src sch conc noseek info w),
                tr0 @ EvOpenChunkWriter (Inr info) # snd (transfer ci f src sch conc noseek info w))"
    using multiThreadCopy_opened [OF assms(1)] by blast
  have "EvSetLimit c \<notin> set tr0" using selected_events [OF sel] by auto
  then have "EvSetLimit c \<in> set (snd (transfer ci f src sch conc noseek info w))"
    using assms(2) run by simp
  then obtain n where
    n: "calculateNumChunks (srcSize src) (ChunkSize (capChunkSize info (srcSize src))) = Inr n" and
    c: "c = planConcurrency ci (capChunkSize info (srcSize src)) n conc"
    using transfer_SetLimit by blast
  have "1 \<le>s n"
    using numChunks_ge1 [OF pos capChunkSize_pos [OF pos assms(3)]] n by simp
  then show ?thesis
    using n c planConcurrency_ge1 planConcurrency_le_iff [of n ci "capChunkSize info (srcSize src)" conc]
    by simp
qed

lemma ex_run_150:
  "multiThreadCopy ex_ci (ex_dest\<lparr>OpenChunkWriter := Some (Inr (ex_info\<lparr>Concurrency := 2\<rparr>))\<rparr>)
      (ex_src 150) ex_sched 8 =
     (Inr (Some (Object ''dst''), None),
      [EvOpenChunkWriter (Inr (ex_info\<lparr>Concurrency := 2\<rparr>)), EvSetLimit 3, EvGo 0, EvGo 1, EvGo 2,
       EvWait None, EvClose None, EvNewObject, EvCancel])"
  by code_simp

theorem planned_concurrency_witness:
  "EvOpenChunkWriter (Inr (ex_info\<lparr>Concurrency := 2\<rparr>))
     \<in> set (snd (multiThreadCopy ex_ci (ex_dest\<lparr>OpenChunkWriter := Some (Inr (ex_info\<lparr>Concurrency := 2\<rparr>))\<rparr>)
                   (ex_src 150) ex_sched 8))
   \<and> EvSetLimit 3
     \<in> set (snd (multiThreadCopy ex_ci (ex_dest\<lparr>OpenChunkWriter := Some (Inr (ex_info\<lparr>Concurrency := 2\<rparr>))\<rparr>)
                   (ex_src 150) ex_sched 8))
   \<and> 0 <s ChunkSize (ex_info\<lparr>Concurrency := 2\<rparr>)
   \<and> calculateNumChunks (srcSize (ex_src 150))
        (ChunkSize (capChunkSize (ex_info\<lparr>Concurrency := 2\<rparr>) (srcSize (ex_src 150)))) = Inr 3
   \<and> (1::int64) \<le>s 3 \<and> ((3::int64) \<le>s 3 \<longleftrightarrow> Concurrency (ex_info\<lparr>Concurrency := 2\<rparr>) \<le>s 3)"
proof -
  let ?info = "ex_info\<lparr>Concurrency := 2\<rparr>"
  let ?run = "multiThreadCopy ex_ci (ex_dest\<lparr>OpenChunkWriter := Some (Inr ?info)\<rparr>) (ex_src 150) ex_sched 8"
  have h1: "EvOpenChunkWriter (Inr ?info) \<in> set (snd ?run)" by (simp add: ex_run_150)
  have h2: "EvSetLimit 3 \<in> set (snd ?run)" by (simp add: ex_run_150)
  have h3: "0 <s ChunkSize ?info" by (simp add: ex_info_def word_sless_alt)
  have n: "calculateNumChunks (srcSize (ex_src 150)) (ChunkSize (capChunkSize ?info (srcSize (ex_src 150)))) = Inr 3"
    by code_simp
  from planned_concurrency [OF h1 h2 h3] n h1 h2 h3 show ?thesis by simp
qed

text \<open>
  The claim as stated fails: a 10-byte source and a backend chunk size of 64 give one
  chunk; with 8 streams requested explicitly and a backend that prefers 4, the pool is
  sized 4.
\<close>

theorem planned_concurrency_counterexample:
  "multiThreadCopy ex_ci ex_dest (ex_src 10) ex_sched 8 =
     (Inr (Some (Object ''dst''), None),
      [EvOpenChunkWriter (Inr ex_info), EvSetLimit 4, EvGo 0, EvWait None, EvClose None,
       EvNewObject, EvCancel])
   \<and> calculateNumChunks (srcSize (ex_src 10)) (ChunkSize (capChunkSize ex_info (srcSize (ex_src 10)))) = Inr 1
   \<and> \<not> (4::int64) \<le>s 1"
  by code_simp

subsection \<open>The byte ranges of the chunks\<close>

lemma sint_of_nat_64: "i < 2 ^ 63 \<Longrightarrow> sint (word_of_nat i :: int64) = int i"
proof -
  assume "i < 2 ^ 63"
  then have "int i < 2 ^ 63" by (metis of_nat_less_iff of_nat_numeral of_nat_power)
  then have "sint (word_of_int (int i) :: int64) = int i"
    by (intro sint_word_of_int_64) auto
  then show ?thesis by simp
qed

lemma sint_mult_64:
  "- (2 ^ 63) \<le> sint a * sint b \<Longrightarrow> sint a * sint b < 2 ^ 63 \<Longrightarrow> sint (a * b :: int64) = sint a * sint b"
  by (simp add: sint_word_mult signed_take_bit_int_eq_self_iff)

lemma sint_add_64:
  "- (2 ^ 63) \<le> sint a + sint b \<Longrightarrow> sint a + sint b < 2 ^ 63 \<Longrightarrow> sint (a + b :: int64) = sint a + sint b"
  by (simp add: sint_word_add signed_take_bit_int_eq_self_iff)

lemma chunkRange_in_plan:
  assumes s: "0 < sint (mc_size mc)" and p: "0 < sint (mc_partSize mc)"
      and i: "int i * sint (mc_partSize mc) < sint (mc_size mc)"
      and fit: "(int i + 1) * sint (mc_partSize mc) < 2 ^ 63"
  shows "\<exists>start end. chunkRange mc (word_of_nat i) = Some (start, end)
           \<and> sint start = int i * sint (mc_partSize mc)
           \<and> sint end = min ((int i + 1) * sint (mc_partSize mc)) (sint (mc_size mc))"
proof -
  let ?p = "sint (mc_partSize mc)" and ?s = "sint (mc_size mc)"
  have ip: "0 \<le> int i * ?p" using p by simp
  have "int i * 1 \<le> int i * ?p" using p by (intro mult_left_mono) auto
  then have "int i < 2 ^ 63" using i sint_bounds_64(2) [of "mc_size mc"] by linarith
  then have "i < 2 ^ 63" by (metis of_nat_less_iff of_nat_numeral of_nat_power)
  then have wi: "sint (word_of_nat i :: int64) = int i" by (rule sint_of_nat_64)
  have ub: "int i * ?p < 2 ^ 63" using i sint_bounds_64(2) [of "mc_size mc"] by linarith
  have st: "sint (word_of_nat i * mc_partSize mc) = int i * ?p"
    using sint_mult_64 [of "word_of_nat i" "mc_partSize mc"] wi ip ub by simp
  have "(int i + 1) * ?p = int i * ?p + ?p" by (simp add: algebra_simps)
  then have en: "sint (word_of_nat i * mc_partSize mc + mc_partSize mc) = (int i + 1) * ?p"
    using sint_add_64 [of "word_of_nat i * mc_partSize mc" "mc_partSize mc"] st fit ip p by simp
  show ?thesis
    using st en i
    by (simp add: chunkRange_def Let_def word_sle_eq word_sless_alt min_def)
qed


lemma plan_indices:
  assumes "0 <s mc_size mc" "0 <s mc_partSize mc"
      and "calculateNumChunks (mc_size mc) (mc_partSize mc) = Inr (mc_numChunks mc)"
      and "i < nat (sint (mc_numChunks mc))"
  shows "int i * sint (mc_partSize mc) < sint (mc_size mc)"
    and "(int i + 1) * sint (mc_partSize mc) \<le> sint (mc_numChunks mc) * sint (mc_partSize mc)"
proof -
  let ?p = "sint (mc_partSize mc)" and ?s = "sint (mc_size mc)" and ?k = "sint (mc_numChunks mc)"
  have pos: "0 < ?s" "0 < ?p" using assms(1,2) by (simp_all add: word_sless_alt)
  have k: "?k = spec_numChunks ?s ?p"
    using sint_calculateNumChunks [OF pos] assms(3) by simp
  have i: "int i + 1 \<le> ?k" using assms(4) by linarith
  then have "int i * ?p \<le> (?k - 1) * ?p" using pos by (intro mult_right_mono) auto
  then show "int i * ?p < ?s" using spec_numChunks_bounds(2) [OF pos(2), of ?s] k by simp
  show "(int i + 1) * ?p \<le> ?k * ?p" using i pos by (intro mult_right_mono) auto
qed

lemma chunkRange_plan:
  assumes "0 <s mc_size mc" "0 <s mc_partSize mc"
      and "calculateNumChunks (mc_size mc) (mc_partSize mc) = Inr (mc_numChunks mc)"
      and "sint (mc_numChunks mc) * sint (mc_partSize mc) < 2 ^ 63"
      and "i < nat (sint (mc_numChunks mc))"
  shows "\<exists>start end. chunkRange mc (word_of_nat i) = Some (start, end)
           \<and> sint start = int i * sint (mc_partSize mc)
           \<and> sint end = min ((int i + 1) * sint (mc_partSize mc)) (sint (mc_size mc))"
proof -
  have pos: "0 < sint (mc_size mc)" "0 < sint (mc_partSize mc)"
    using assms(1,2) by (simp_all add: word_sless_alt)
  have "(int i + 1) * sint (mc_partSize mc) < 2 ^ 63"
    using plan_indices(2) [OF assms(1-3,5)] assms(4) by linarith
  then show ?thesis
    using chunkRange_in_plan [OF pos plan_indices(1) [OF assms(1-3,5)]] by simp
qed

lemma chunkBytes_plan:
  assumes "0 <s mc_size mc" "0 <s mc_partSize mc"
      and "calculateNumChunks (mc_size mc) (mc_partSize mc) = Inr (mc_numChunks mc)"
      and "sint (mc_numChunks mc) * sint (mc_partSize mc) < 2 ^ 63"
      and "i < nat (sint (mc_numChunks mc))"
  shows "chunkBytes mc i =
           {int i * sint (mc_partSize mc) ..< min ((int i + 1) * sint (mc_partSize mc)) (sint (mc_size mc))}"
  using chunkRange_plan [OF assms] by (auto simp add: chunkBytes_def)

lemma ranges_disjoint:
  assumes "0 < (p::int)" "i < j"
  shows "{int i * p ..< min ((int i + 1) * p) s} \<inter> {int j * p ..< min ((int j + 1) * p) s} = {}"
proof -
  have "int i + 1 \<le> int j" using assms(2) by simp
  then have "(int i + 1) * p \<le> int j * p" using assms(1) by (intro mult_right_mono) auto
  then show ?thesis by auto
qed

lemma ranges_cover:
  assumes "0 < (p::int)" "0 < s" "0 \<le> k" "s \<le> k * p" "(k - 1) * p < s"
  shows "(\<Union>i<nat k. {int i * p ..< min ((int i + 1) * p) s}) = {0 ..< s}"
proof (intro set_eqI iffI)
  fix x assume "x \<in> (\<Union>i<nat k. {int i * p ..< min ((int i + 1) * p) s})"
  then obtain i where "int i * p \<le> x" "x < s" by auto
  moreover have "0 \<le> int i * p" using assms(1) by simp
  ultimately show "x \<in> {0 ..< s}" by simp
next
  fix x assume x: "x \<in> {0 ..< s}"
  let ?i = "nat (x div p)"
  have q0: "0 \<le> x div p" using x assms(1) by (simp add: pos_imp_zdiv_nonneg_iff)
  have eq: "x div p * p + x mod p = x" by simp
  have m: "0 \<le> x mod p" "x mod p < p" using assms(1) by simp_all
  have ii: "int ?i = x div p" using q0 by simp
  have lo: "int ?i * p \<le> x" unfolding ii using eq m by linarith
  have "(int ?i + 1) * p = x div p * p + p" using q0 by (simp add: algebra_simps)
  then have hi: "x < (int ?i + 1) * p" using eq m by linarith
  have "x div p < k"
  proof (rule ccontr)
    assume "\<not> x div p < k"
    then have "k \<le> x div p" by simp
    then have "k * p \<le> x div p * p" using assms(1) by (intro mult_right_mono) auto
    moreover have "x < s" using x by simp
    ultimately show False using eq m assms(4) by linarith
  qed
  then have "?i < nat k" using q0 by linarith
  moreover have "x \<in> {int ?i * p ..< min ((int ?i + 1) * p) s}" using lo hi x by simp
  ultimately show "x \<in> (\<Union>i<nat k. {int i * p ..< min ((int i + 1) * p) s})" by blast
qed


text \<open>
  Claim C3, as amended. For every size > 0 and part size > 0 with the number of chunks
  that \<open>calculateNumChunks\<close> returns, provided that number times the part size is
  below \<open>2^63\<close> (so the last chunk's \<open>start + partSize\<close> fits an \<open>int64\<close>): each
  chunk \<open>i\<close> below the number of chunks gets \<open>start = i * partSize\<close> and
  \<open>end = min ((i + 1) * partSize) size\<close>, every chunk starts where the one before
  ends, two different chunks share no byte, and together the chunks are the bytes from
  0 up to the size.
\<close>

theorem chunk_ranges_partition:
  assumes "0 <s mc_size mc" "0 <s mc_partSize mc"
      and "calculateNumChunks (mc_size mc) (mc_partSize mc) = Inr (mc_numChunks mc)"
      and "sint (mc_numChunks mc) * sint (mc_partSize mc) < 2 ^ 63"
  shows "(\<forall>i < nat (sint (mc_numChunks mc)).
            \<exists>start end. chunkRange mc (word_of_nat i) = Some (start, end)
              \<and> sint start = int i * sint (mc_partSize mc)
              \<and> sint end = min ((int i + 1) * sint (mc_partSize mc)) (sint (mc_size mc)))
       \<and> (\<forall>i. Suc i < nat (sint (mc_numChunks mc)) \<longrightarrow>
            (\<exists>a b c. chunkRange mc (word_of_nat i) = Some (a, b)
               \<and> chunkRange mc (word_of_nat (Suc i)) = Some (b, c)))
       \<and> (\<forall>i < nat (sint (mc_numChunks mc)). \<forall>j < nat (sint (mc_numChunks mc)).
            i \<noteq> j \<longrightarrow> chunkBytes mc i \<inter> chunkBytes mc j = {})
       \<and> (\<Union>i < nat (sint (mc_numChunks mc)). chunkBytes mc i) = {0 ..< sint (mc_size mc)}"
proof (intro conjI allI impI)
  let ?p = "sint (mc_partSize mc)" and ?s = "sint (mc_size mc)" and ?k = "sint (mc_numChunks mc)"
  have pos: "0 < ?s" "0 < ?p" using assms(1,2) by (simp_all add: word_sless_alt)
  have k: "?k = spec_numChunks ?s ?p"
    using sint_calculateNumChunks [OF pos] assms(3) by simp
  note R = chunkRange_plan [OF assms]
  note B = chunkBytes_plan [OF assms]
  {
    fix i assume "i < nat ?k"
    then show "\<exists>start end. chunkRange mc (word_of_nat i) = Some (start, end)
              \<and> sint start = int i * ?p \<and> sint end = min ((int i + 1) * ?p) ?s"
      by (rule R)
  }
  {
    fix i assume i: "Suc i < nat ?k"
    then have i': "i < nat ?k" by simp
    obtain a b where ab: "chunkRange mc (word_of_nat i) = Some (a, b)"
        "sint b = min ((int i + 1) * ?p) ?s"
      using R [OF i'] by blast
    obtain b' c where bc: "chunkRange mc (word_of_nat (Suc i)) = Some (b', c)"
        "sint b' = int (Suc i) * ?p"
      using R [OF i] by blast
    have "int (Suc i) * ?p < ?s" using plan_indices(1) [OF assms(1-3) i] .
    then have "sint b = sint b'" using ab(2) bc(2) by (simp add: algebra_simps)
    then have "b = b'" by (rule signed_word_eqI)
    then show "\<exists>a b c. chunkRange mc (word_of_nat i) = Some (a, b)
               \<and> chunkRange mc (word_of_nat (Suc i)) = Some (b, c)"
      using ab(1) bc(1) by blast
  }
  {
    fix i j assume ij: "i < nat ?k" "j < nat ?k" "i \<noteq> j"
    show "chunkBytes mc i \<inter> chunkBytes mc j = {}"
    proof (cases "i < j")
      case True
      then show ?thesis using B [OF ij(1)] B [OF ij(2)] ranges_disjoint [OF pos(2) True, of ?s] by simp
    next
      case False
      then have ji: "j < i" using ij(3) by simp
      show ?thesis using B [OF ij(1)] B [OF ij(2)] ranges_disjoint [OF pos(2) ji, of ?s] by auto
    qed
  }
  have "0 \<le> ?k" using numChunks_ge1 [OF assms(1,2)] assms(3) by (simp add: word_sle_eq)
  then have "(\<Union>i<nat ?k. {int i * ?p ..< min ((int i + 1) * ?p) ?s}) = {0 ..< ?s}"
    using ranges_cover [OF pos(2) pos(1), of ?k] spec_numChunks_bounds [OF pos(2), of ?s] k by simp
  then show "(\<Union>i < nat ?k. chunkBytes mc i) = {0 ..< ?s}"
    using B by simp
qed

lemma ex_ranges_150:
  "map (chunkRange \<lparr>mc_partSize = 64, mc_size = 150, mc_numChunks = 3, mc_noSeek = False\<rparr>) [0, 1, 2, 3]
     = [Some (0, 64), Some (64, 128), Some (128, 150), None]"
  by code_simp

theorem chunk_ranges_partition_witness:
  "0 <s mc_size \<lparr>mc_partSize = 64, mc_size = 150, mc_numChunks = 3, mc_noSeek = False\<rparr>
   \<and> 0 <s mc_partSize \<lparr>mc_partSize = 64, mc_size = 150, mc_numChunks = 3, mc_noSeek = False\<rparr>
   \<and> calculateNumChunks 150 64 = Inr 3
   \<and> sint (3::int64) * sint (64::int64) < 2 ^ 63
   \<and> (\<Union>i < nat (sint (3::int64)).
         chunkBytes \<lparr>mc_partSize = 64, mc_size = 150, mc_numChunks = 3, mc_noSeek = False\<rparr> i)
       = {0 ..< sint (150::int64)}
   \<and> map (chunkRange \<lparr>mc_partSize = 64, mc_size = 150, mc_numChunks = 3, mc_noSeek = False\<rparr>) [0, 1, 2]
       = [Some (0, 64), Some (64, 128), Some (128, 150)]"
proof -
  let ?mc = "\<lparr>mc_partSize = 64, mc_size = 150, mc_numChunks = 3, mc_noSeek = False\<rparr>"
  have h1: "0 <s mc_size ?mc" and h2: "0 <s mc_partSize ?mc" by (simp_all add: word_sless_alt)
  have h3: "calculateNumChunks (mc_size ?mc) (mc_partSize ?mc) = Inr (mc_numChunks ?mc)" by code_simp
  have h4: "sint (mc_numChunks ?mc) * sint (mc_partSize ?mc) < 2 ^ 63" by simp
  from chunk_ranges_partition [OF h1 h2 h3 h4] h1 h2 h3 h4 ex_ranges_150 show ?thesis by simp
qed

text \<open>
  The claim as stated fails near the top of \<open>int64\<close>: for a size of \<open>2^63 - 1\<close> and a
  part size of \<open>2^62 + 1\<close> there are two chunks, and for the second one
  \<open>start + partSize\<close> wraps around to a negative \<open>end\<close>, which is not the size and
  leaves the chunk without bytes.
\<close>

theorem chunk_ranges_partition_counterexample:
  "0 <s (9223372036854775807 :: int64) \<and> 0 <s (4611686018427387905 :: int64)
   \<and> calculateNumChunks 9223372036854775807 4611686018427387905 = Inr 2
   \<and> chunkRange \<lparr>mc_partSize = 4611686018427387905, mc_size = 9223372036854775807,
                   mc_numChunks = 2, mc_noSeek = False\<rparr> 1
       = Some (4611686018427387905, - 9223372036854775806)
   \<and> min ((1 + 1) * sint (4611686018427387905 :: int64)) (sint (9223372036854775807 :: int64))
       = 9223372036854775807
   \<and> sint (- 9223372036854775806 :: int64) = - 9223372036854775806
   \<and> chunkBytes \<lparr>mc_partSize = 4611686018427387905, mc_size = 9223372036854775807,
                   mc_numChunks = 2, mc_noSeek = False\<rparr> 1 = {}"
proof -
  have r: "chunkRange \<lparr>mc_partSize = 4611686018427387905, mc_size = 9223372036854775807,
                   mc_numChunks = 2, mc_noSeek = False\<rparr> 1
       = Some (4611686018427387905, - 9223372036854775806)"
    by code_simp
  have c: "calculateNumChunks 9223372036854775807 4611686018427387905 = Inr 2"
    by code_simp
  show ?thesis using r c by (simp add: chunkBytes_def word_sless_alt)
qed

subsection \<open>The adapted writer's expected byte count\<close>

lemma sint_minus_one_64:
  assumes "1 \<le> sint (a :: int64)"
  shows "sint (a - 1) = sint a - 1"
proof -
  have "- (2 ^ 63) \<le> sint a - 1" "sint a - 1 < 2 ^ 63"
    using assms sint_bounds_64(2) [of a] by linarith+
  then show ?thesis by (simp add: sint_word_diff signed_take_bit_int_eq_self_iff)
qed

lemma bytesToWrite_expected:
  assumes "0 <s w_size w" "0 <s w_chunkSize w"
      and "calculateNumChunks (w_size w) (w_chunkSize w) = Inr (w_chunks w)"
  shows "sint (if chunkNumber = w_chunks w - 1 \<and> go_rem (w_size w) (w_chunkSize w) \<noteq> 0
               then go_rem (w_size w) (w_chunkSize w) else w_chunkSize w)
           = spec_expectedBytes (sint (w_size w)) (sint (w_chunkSize w)) (sint chunkNumber)"
proof -
  let ?s = "sint (w_size w)" and ?c = "sint (w_chunkSize w)"
  have pos: "0 < ?s" "0 < ?c" using assms(1,2) by (simp_all add: word_sless_alt)
  have k: "sint (w_chunks w) = spec_numChunks ?s ?c"
    using sint_calculateNumChunks [OF pos] assms(3) by simp
  have "1 \<le> sint (w_chunks w)"
    using numChunks_ge1 [OF assms(1,2)] assms(3) by (simp add: word_sle_eq)
  then have last: "sint (w_chunks w - 1) = spec_numChunks ?s ?c - 1"
    using sint_minus_one_64 k by simp
  have idx: "chunkNumber = w_chunks w - 1 \<longleftrightarrow> sint chunkNumber = spec_numChunks ?s ?c - 1"
    using last signed_word_eqI by metis
  have r: "sint (go_rem (w_size w) (w_chunkSize w)) = ?s mod ?c"
    using pos by (simp add: sint_go_rem_pos)
  have r0: "go_rem (w_size w) (w_chunkSize w) = 0 \<longleftrightarrow> ?s mod ?c = 0"
    using r sint_eq_zero_iff by metis
  show ?thesis using idx r r0 by (simp add: spec_expectedBytes_def)
qed

text \<open>
  Claim C4. For a writer as the adapter builds it (its number of chunks is what
  \<open>calculateNumChunks\<close> returned for its size and chunk size) and for every chunk
  number, \<open>WriteChunk\<close> does not panic. The count \<open>b\<close> it expects is the chunk size,
  except for the last chunk when the size leaves a remainder, where it is that
  remainder. It returns without error, and then the count that \<open>io.Copy\<close> reported,
  only when that count is the expected one, and it returns an error (with \<open>-1\<close>)
  whenever the count differs; it succeeds exactly when moreover \<open>io.Copy\<close> returned no
  error and flushing the buffer, if there is one, did not fail. For a positive size and
  a positive chunk size the expected count is the specification's, on the integers.
\<close>

theorem WriteChunk_expected_bytes:
  assumes "calculateNumChunks (w_size w) (w_chunkSize w) = Inr (w_chunks w)"
      and "copy (if 0 <s w_writeBufferSize w
                 then BufioWriter (chunkNumber * w_chunkSize w) (w_writeBufferSize w)
                 else OffsetWriter (chunkNumber * w_chunkSize w)) = (n, err)"
  shows "\<exists>r e b. WriteChunk w chunkNumber copy flush = Inr (r, e)
           \<and> b = (if chunkNumber = w_chunks w - 1 \<and> go_rem (w_size w) (w_chunkSize w) \<noteq> 0
                  then go_rem (w_size w) (w_chunkSize w) else w_chunkSize w)
           \<and> (e = None \<longrightarrow> r = n \<and> n = b)
           \<and> (n \<noteq> b \<longrightarrow> e \<noteq> None \<and> r = - 1)
           \<and> (e = None \<longleftrightarrow>
                 err = None \<and> n = b
                 \<and> (0 <s w_writeBufferSize w \<longrightarrow>
                       flush (BufioWriter (chunkNumber * w_chunkSize w) (w_writeBufferSize w)) = None))
           \<and> (0 <s w_size w \<and> 0 <s w_chunkSize w \<longrightarrow>
                 sint b = spec_expectedBytes (sint (w_size w)) (sint (w_chunkSize w)) (sint chunkNumber))"
proof -
  define b where "b = (if chunkNumber = w_chunks w - 1 \<and> go_rem (w_size w) (w_chunkSize w) \<noteq> 0
               then go_rem (w_size w) (w_chunkSize w) else w_chunkSize w)"
  define wr where "wr = (if 0 <s w_writeBufferSize w
                   then BufioWriter (chunkNumber * w_chunkSize w) (w_writeBufferSize w)
                   else OffsetWriter (chunkNumber * w_chunkSize w))"
  have c0: "w_chunkSize w \<noteq> 0" using assms(1) by (auto simp add: calculateNumChunks_def)
  have sp: "0 <s w_size w \<and> 0 <s w_chunkSize w \<longrightarrow>
              sint b = spec_expectedBytes (sint (w_size w)) (sint (w_chunkSize w)) (sint chunkNumber)"
    unfolding b_def using bytesToWrite_expected [OF _ _ assms(1)] by blast
  have cp: "copy wr = (n, err)" using assms(2) by (simp only: wr_def)
  have W: "WriteChunk w chunkNumber copy flush =
      (if err \<noteq> None then Inr (- 1, err)
       else if n \<noteq> b then Inr (- 1, Some (ErrorfWrote b chunkNumber n))
       else (case wr of
               BufioWriter _ _ \<Rightarrow>
                 (case flush wr of
                    Some er2 \<Rightarrow> Inr (- 1, Some (Errorf ''multi-thread copy: flush failed'' err))
                  | None \<Rightarrow> Inr (n, None))
             | OffsetWriter _ \<Rightarrow> Inr (n, None)))"
    unfolding WriteChunk_def Let_def b_def [symmetric] wr_def [symmetric] using c0 cp by simp
  have fl: "0 <s w_writeBufferSize w \<Longrightarrow> wr = BufioWriter (chunkNumber * w_chunkSize w) (w_writeBufferSize w)"
    by (simp add: wr_def)
  have nofl: "\<not> 0 <s w_writeBufferSize w \<Longrightarrow> wr = OffsetWriter (chunkNumber * w_chunkSize w)"
    by (simp add: wr_def)
  have ?thesis if "err \<noteq> None"
    unfolding b_def [symmetric] using that W sp by auto
  moreover have ?thesis if "err = None" "n \<noteq> b"
    unfolding b_def [symmetric] using that W sp by auto
  moreover have ?thesis if "err = None" "n = b" "\<not> 0 <s w_writeBufferSize w"
    unfolding b_def [symmetric] using that W sp nofl by auto
  moreover have ?thesis if "err = None" "n = b" "0 <s w_writeBufferSize w"
    unfolding b_def [symmetric] using that W sp fl [OF that(3)]
    by (cases "flush (BufioWriter (chunkNumber * w_chunkSize w) (w_writeBufferSize w))") auto
  ultimately show ?thesis by blast
qed

lemma ex_WriteChunk_last:
  "WriteChunk \<lparr>w_size = 150, w_chunkSize = 64, w_chunks = 3, w_writeBufferSize = 0\<rparr> 2
     (\<lambda>writer. (22, None)) (\<lambda>writer. None) = Inr (22, None)"
  by code_simp

lemma ex_WriteChunk_short:
  "WriteChunk \<lparr>w_size = 150, w_chunkSize = 64, w_chunks = 3, w_writeBufferSize = 0\<rparr> 1
     (\<lambda>writer. (22, None)) (\<lambda>writer. None) = Inr (- 1, Some (ErrorfWrote 64 1 22))"
  by code_simp

theorem WriteChunk_expected_bytes_witness:
  "calculateNumChunks (150 :: int64) 64 = Inr 3
   \<and> 0 <s (150 :: int64) \<and> 0 <s (64 :: int64)
   \<and> WriteChunk \<lparr>w_size = 150, w_chunkSize = 64, w_chunks = 3, w_writeBufferSize = 0\<rparr> 2
        (\<lambda>writer. (22, None)) (\<lambda>writer. None) = Inr (22, None)
   \<and> spec_expectedBytes 150 64 2 = 22
   \<and> WriteChunk \<lparr>w_size = 150, w_chunkSize = 64, w_chunks = 3, w_writeBufferSize = 0\<rparr> 1
        (\<lambda>writer. (22, None)) (\<lambda>writer. None) = Inr (- 1, Some (ErrorfWrote 64 1 22))"
proof -
  let ?w = "\<lparr>w_size = 150, w_chunkSize = 64, w_chunks = 3, w_writeBufferSize = 0\<rparr>"
  have h1: "calculateNumChunks (w_size ?w) (w_chunkSize ?w) = Inr (w_chunks ?w)" by code_simp
  have p: "0 <s (150 :: int64)" "0 <s (64 :: int64)" by (simp_all add: word_sless_alt)
  have g: "go_rem (150 :: int64) 64 = 22" by code_simp
  from WriteChunk_expected_bytes [where w = ?w and chunkNumber = 2
      and copy = "\<lambda>writer. (22, None)" and flush = "\<lambda>writer. None" and n = 22 and err = None, OF h1]
  have "spec_expectedBytes 150 64 2 = 22"
    using p g by simp
  then show ?thesis using h1 p ex_WriteChunk_last ex_WriteChunk_short by simp
qed

subsection \<open>The offset writer\<close>

lemma Write_recording:
  "Write (recording wa) \<lparr>ow_w = (w, calls), ow_off = off\<rparr> p =
     (fst (wa w p off),
      \<lparr>ow_w = (snd (wa w p off), calls @ [(off, fst (fst (wa w p off)))]),
        ow_off = off + fst (fst (wa w p off))\<rparr>)"
  by (simp add: Write_def recording_def Let_def case_prod_beta)

text \<open>
  The calls that a sequence of writes makes: each at the base plus the counts reported
  before it, in \<open>int64\<close> arithmetic.
\<close>

lemma Writes_recording:
  "Writes (recording wa) \<lparr>ow_w = (w, calls), ow_off = off\<rparr> ps = (rs, ow) \<Longrightarrow>
     length rs = length ps
     \<and> snd (ow_w ow) =
         calls @ map (\<lambda>k. (off + sum_list (map fst (take k rs)), fst (rs ! k))) [0 ..< length ps]
     \<and> ow_off ow = off + sum_list (map fst rs)"
proof (induction ps arbitrary: w calls off rs ow)
  case Nil
  then show ?case by auto
next
  case (Cons p ps)
  let ?r = "fst (wa w p off)" and ?w' = "snd (wa w p off)"
  let ?ow' = "\<lparr>ow_w = (?w', calls @ [(off, fst ?r)]), ow_off = off + fst ?r\<rparr>"
  obtain rs' ow'' where rec: "Writes (recording wa) ?ow' ps = (rs', ow'')"
    by (cases "Writes (recording wa) ?ow' ps")
  have rs: "rs = ?r # rs'" and ow: "ow = ow''"
    using Cons.prems rec by (simp_all add: Write_recording)
  note IH = Cons.IH [OF rec]
  have len: "length rs = length (p # ps)" using IH rs by simp
  have "map (\<lambda>k. (off + sum_list (map fst (take k rs)), fst (rs ! k))) [0 ..< length (p # ps)]
      = (off, fst ?r) # map (\<lambda>k. (off + fst ?r + sum_list (map fst (take k rs')), fst (rs' ! k))) [0 ..< length ps]"
    by (simp add: rs upt_conv_Cons map_Suc_upt [symmetric] add.assoc del: upt_Suc)
  then show ?case using IH rs ow len by (simp add: add.assoc)
qed

lemma sint_add_sum_list:
  assumes "\<forall>n \<in> set ns. 0 \<le> sint n"
      and "sint off + (\<Sum>n\<leftarrow>ns. sint n) < 2 ^ 63"
  shows "sint (off + sum_list ns :: int64) = sint off + (\<Sum>n\<leftarrow>ns. sint n)"
  using assms
proof (induction ns arbitrary: off)
  case Nil
  then show ?case by simp
next
  case (Cons n ns)
  have nn: "0 \<le> sint n" and rest: "\<forall>m \<in> set ns. 0 \<le> sint m" using Cons.prems(1) by simp_all
  have "0 \<le> (\<Sum>m\<leftarrow>ns. sint m)" using rest by (intro sum_list_nonneg) auto
  then have "sint off + sint n < 2 ^ 63" using Cons.prems(2) by simp
  then have step: "sint (off + n) = sint off + sint n"
    using sint_add_64 [of off n] sint_bounds_64(1) [of off] nn by simp
  have "sint (off + n + sum_list ns) = sint (off + n) + (\<Sum>m\<leftarrow>ns. sint m)"
    using Cons.prems(2) step rest by (intro Cons.IH) (simp_all add: add.assoc)
  then show ?case using step by (simp add: add.assoc)
qed


lemma sum_list_take_mono:
  assumes "\<forall>n \<in> set ns. 0 \<le> (f n :: int)"
  shows "(\<Sum>n\<leftarrow>take k ns. f n) \<le> (\<Sum>n\<leftarrow>ns. f n)"
proof -
  have "(\<Sum>n\<leftarrow>ns. f n) = (\<Sum>n\<leftarrow>take k ns. f n) + (\<Sum>n\<leftarrow>drop k ns. f n)"
    by (metis append_take_drop_id map_append sum_list_append)
  moreover have "0 \<le> (\<Sum>n\<leftarrow>drop k ns. f n)"
    using assms by (intro sum_list_nonneg) (auto dest: in_set_dropD)
  ultimately show ?thesis by linarith
qed

lemma sint_offset_after:
  assumes "\<forall>r \<in> set rs. 0 \<le>s fst r"
      and "sint base + (\<Sum>r\<leftarrow>rs. sint (fst r)) < 2 ^ 63"
  shows "sint (base + sum_list (map fst (take k rs)) :: int64)
           = sint base + (\<Sum>r\<leftarrow>take k rs. sint (fst r))"
proof -
  have nn: "\<forall>r \<in> set rs. 0 \<le> sint (fst r)" using assms(1) by (simp add: word_sle_eq)
  have "(\<Sum>r\<leftarrow>take k rs. sint (fst r)) \<le> (\<Sum>r\<leftarrow>rs. sint (fst r))"
    using nn by (rule sum_list_take_mono)
  then have "sint base + (\<Sum>n\<leftarrow>map fst (take k rs). sint n) < 2 ^ 63"
    using assms(2) by (simp add: comp_def)
  moreover have "\<forall>n \<in> set (map fst (take k rs)). 0 \<le> sint n"
    using nn by (auto dest: in_set_takeD)
  ultimately show ?thesis
    using sint_add_sum_list [of "map fst (take k rs)" base] by (simp add: comp_def)
qed

text \<open>
  Claim C5, as amended. An offset writer is created at the base \<open>index * chunkSize\<close>
  over any \<open>WriteAt\<close>, and any sequence of writes is made on it. The counts that
  \<open>WriteAt\<close> reports are not negative (the contract of \<open>io.WriterAt\<close>) and the base
  plus their total is below \<open>2^63\<close>, an \<open>int64\<close> offset. Then \<open>WriteAt\<close> is called once per write, the \<open>k\<close>-th
  call at the base plus the counts reported by the calls before it; each call is at the
  offset of the one before plus the count that one reported, never below it; and the
  cursor ends at the base plus the total, not below the base.
\<close>

theorem offsetWriter_lands:
  assumes "Writes (recording wa) (newOffsetWriter (w0, []) (index * chunkSize)) ps = (rs, ow)"
      and "\<forall>r \<in> set rs. 0 \<le>s fst r"
      and "sint (index * chunkSize) + (\<Sum>r\<leftarrow>rs. sint (fst r)) < 2 ^ 63"
  shows "length (snd (ow_w ow)) = length ps
       \<and> map snd (snd (ow_w ow)) = map fst rs
       \<and> (\<forall>k < length ps.
             fst (snd (ow_w ow) ! k) = index * chunkSize + sum_list (map fst (take k rs))
             \<and> sint (fst (snd (ow_w ow) ! k))
                 = sint (index * chunkSize) + (\<Sum>r\<leftarrow>take k rs. sint (fst r)))
       \<and> (\<forall>k. Suc k < length ps \<longrightarrow>
             fst (snd (ow_w ow) ! Suc k) = fst (snd (ow_w ow) ! k) + snd (snd (ow_w ow) ! k)
             \<and> fst (snd (ow_w ow) ! k) \<le>s fst (snd (ow_w ow) ! Suc k))
       \<and> ow_off ow = index * chunkSize + sum_list (map fst rs)
       \<and> index * chunkSize \<le>s ow_off ow"
proof -
  let ?base = "index * chunkSize"
  let ?calls = "snd (ow_w ow)"
  have W: "length rs = length ps"
      "?calls = map (\<lambda>k. (?base + sum_list (map fst (take k rs)), fst (rs ! k))) [0 ..< length ps]"
      "ow_off ow = ?base + sum_list (map fst rs)"
    using Writes_recording [of wa w0 "[]" ?base ps rs ow] assms(1)
    by (simp_all add: newOffsetWriter_def)
  have nn: "\<forall>r \<in> set rs. 0 \<le> sint (fst r)" using assms(2) by (simp add: word_sle_eq)
  have off: "fst (?calls ! k) = ?base + sum_list (map fst (take k rs))"
      and cnt: "snd (?calls ! k) = fst (rs ! k)" if "k < length ps" for k
    using W(2) that by simp_all
  have soff: "sint (fst (?calls ! k)) = sint ?base + (\<Sum>r\<leftarrow>take k rs. sint (fst r))"
    if "k < length ps" for k
    using off [OF that] sint_offset_after [OF assms(2,3)] by simp
  have len: "length ?calls = length ps" using W(2) by simp
  have cnts: "map snd ?calls = map fst rs"
    using W(1,2) by (auto intro: nth_equalityI)
  have step: "fst (?calls ! Suc k) = fst (?calls ! k) + snd (?calls ! k)
             \<and> fst (?calls ! k) \<le>s fst (?calls ! Suc k)" if k: "Suc k < length ps" for k
  proof -
    have k': "k < length ps" using k by simp
    have t: "take (Suc k) rs = take k rs @ [rs ! k]"
      using k' W(1) by (simp add: take_Suc_conv_app_nth)
    have a: "fst (?calls ! Suc k) = fst (?calls ! k) + snd (?calls ! k)"
      using off [OF k] off [OF k'] cnt [OF k'] t by (simp add: add.assoc)
    have "rs ! k \<in> set rs" using k' W(1) by simp
    then have "0 \<le> sint (fst (rs ! k))" using nn by blast
    then have "sint (fst (?calls ! k)) \<le> sint (fst (?calls ! Suc k))"
      using soff [OF k] soff [OF k'] t by simp
    then show ?thesis using a by (simp add: word_sle_eq)
  qed
  have "sint (ow_off ow) = sint ?base + (\<Sum>r\<leftarrow>rs. sint (fst r))"
    using W(3) sint_offset_after [OF assms(2,3), of "length rs"] by simp
  moreover have "0 \<le> (\<Sum>r\<leftarrow>rs. sint (fst r))"
    using nn by (intro sum_list_nonneg) auto
  ultimately have fin: "?base \<le>s ow_off ow" by (simp add: word_sle_eq)
  show ?thesis using len cnts off soff step W(3) fin by blast
qed


lemma ex_Writes:
  "Writes (recording sinkWriteAt) (newOffsetWriter (Map.empty, []) (2 * 64)) [[1, 2, 3], [4, 5]]
     = ([(3, None), (2, None)],
        \<lparr>ow_w = (store (store Map.empty [1, 2, 3] 128) [4, 5] 131, [(128, 3), (131, 2)]),
          ow_off = 133\<rparr>)"
  by (simp add: Write_def recording_def sinkWriteAt_def newOffsetWriter_def Let_def)

theorem offsetWriter_lands_witness:
  "Writes (recording sinkWriteAt) (newOffsetWriter (Map.empty, []) (2 * 64)) [[1, 2, 3], [4, 5]]
     = ([(3, None), (2, None)],
        \<lparr>ow_w = (store (store Map.empty [1, 2, 3] 128) [4, 5] 131, [(128, 3), (131, 2)]),
          ow_off = 133\<rparr>)
   \<and> (0 :: int64) \<le>s 3 \<and> (0 :: int64) \<le>s 2
   \<and> sint (2 * 64 :: int64) + (sint (3 :: int64) + sint (2 :: int64)) < 2 ^ 63
   \<and> fst ([(128 :: int64, 3 :: int64), (131, 2)] ! 0) = 2 * 64
   \<and> fst ([(128 :: int64, 3 :: int64), (131, 2)] ! 1) = 2 * 64 + 3
   \<and> fst ([(128 :: int64, 3 :: int64), (131, 2)] ! 0) \<le>s fst ([(128 :: int64, 3 :: int64), (131, 2)] ! 1)
   \<and> (2 * 64 :: int64) \<le>s 133
   \<and> map (store (store Map.empty [1, 2, 3] 128) [4, 5] 131) [127, 128, 129, 130, 131, 132, 133]
       = [None, Some 1, Some 2, Some 3, Some 4, Some 5, None]"
proof -
  have h2: "\<forall>r \<in> set [(3 :: int64, None :: error option), (2, None)]. 0 \<le>s fst r"
    by (simp add: word_sle_eq)
  have h3: "sint (2 * 64 :: int64) + (\<Sum>r\<leftarrow>[(3 :: int64, None :: error option), (2, None)]. sint (fst r)) < 2 ^ 63"
    by simp
  have m: "map (store (store Map.empty [1, 2, 3] 128) [4, 5] 131) [127, 128, 129, 130, 131, 132, 133]
       = [None, Some 1, Some 2, Some 3, Some 4, Some 5, None]"
    by simp
  from offsetWriter_lands [OF ex_Writes h2 h3] ex_Writes h2 h3 m show ?thesis by simp
qed

text \<open>
  The claim as stated fails outside those two conditions. On the fake sink, which
  reports the length of what it is given, an offset writer at the base
  \<open>1 * (2^63 - 2)\<close> moves from \<open>2^63 - 2\<close> to \<open>-2^63 + 1\<close> with a write of three
  bytes, so the next write lands at a negative offset, below the first; and over a
  \<open>WriteAt\<close> that reports \<open>-2\<close> an offset writer at the base \<open>2 * 5\<close> moves from 10
  to 8 to 6.
\<close>

theorem offsetWriter_lands_counterexample:
  "snd (ow_w (snd (Writes (recording sinkWriteAt)
                     (newOffsetWriter (Map.empty, []) (1 * 9223372036854775806)) [[1, 2, 3], [4]])))
     = [(9223372036854775806, 3), (- 9223372036854775807, 1)]
   \<and> (- 9223372036854775807 :: int64) <s 1 * 9223372036854775806
   \<and> sint (1 * 9223372036854775806 :: int64) + sint (3 :: int64) = 9223372036854775809
   \<and> sint (- 9223372036854775807 :: int64) = - 9223372036854775807
   \<and> snd (ow_w (snd (Writes (recording brokenWriteAt) (newOffsetWriter ((), []) (2 * 5)) [[1], [2]])))
       = [(10, - 2), (8, - 2)]
   \<and> ow_off (snd (Writes (recording brokenWriteAt) (newOffsetWriter ((), []) (2 * 5)) [[1], [2]])) = 6
   \<and> (8 :: int64) <s 10 \<and> (6 :: int64) <s 2 * 5"
  by (simp add: Write_def recording_def sinkWriteAt_def brokenWriteAt_def newOffsetWriter_def
        Let_def word_sless_alt)

subsection \<open>The shape of a run that reached \<open>g.Wait\<close>\<close>

lemma finish_trace:
  "\<exists>rest. snd (finish f w err) = [EvWait err, EvClose (writer_Close f w)] @ rest
          \<and> set rest \<subseteq> {EvNewObject, EvSetModTime}"
  by (auto simp add: finish_def Let_def split: sum.splits)

lemma finish_Wait: "EvWait x \<in> set (snd (finish f w err)) \<Longrightarrow> x = err"
  using finish_trace [of f w err] by auto

lemma finish_Close: "EvClose x \<in> set (snd (finish f w err)) \<Longrightarrow> x = writer_Close f w"
  using finish_trace [of f w err] by auto

lemma finish_chunk_error:
  "err \<noteq> None \<Longrightarrow> fst (finish f w err) = (None, err)"
  by (simp add: finish_def Let_def)

lemma finish_close_error:
  "writer_Close f w = Some ce \<Longrightarrow>
     fst (finish f w None) = (None, Some (Errorf ''multi-thread copy: failed to close object after copy'' (Some ce)))"
  by (simp add: finish_def Let_def)

lemma transfer_waited:
  assumes "EvWait werr \<in> set (snd (transfer ci f src sch conc noseek info w))"
  shows "\<exists>n. calculateNumChunks (srcSize src) (ChunkSize (capChunkSize info (srcSize src))) = Inr n
          \<and> Wait (finishOrder sch) (spawnLoop (ctxErr sch) 0 (nat (sint n)))
               (\<lambda>chunk. copyChunk f src
                  \<lparr>mc_partSize = ChunkSize (capChunkSize info (srcSize src)), mc_size = srcSize src,
                    mc_numChunks = n, mc_noSeek = noseek\<rparr> (word_of_nat chunk) w) = Inr werr
          \<and> transfer ci f src sch conc noseek info w =
              (Inr (fst (finish f w werr)),
               EvSetLimit (planConcurrency ci (capChunkSize info (srcSize src)) n conc)
                 # map EvGo (spawnLoop (ctxErr sch) 0 (nat (sint n)))
                 @ snd (finish f w werr)
                 @ deferred f (capChunkSize info (srcSize src)) w (snd (fst (finish f w werr))))"
  using assms
  by (auto simp add: transfer_def Let_def case_prod_beta split: sum.splits
        dest: deferred_events finish_Wait)

lemma multiThreadCopy_waited_opened:
  assumes "EvWait werr \<in> set (snd (multiThreadCopy ci f src sch conc))"
  shows "\<exists>info. EvOpenChunkWriter (Inr info) \<in> set (snd (multiThreadCopy ci f src sch conc))"
proof (cases "selectOpenChunkWriter ci f src")
  case (Inl e)
  then show ?thesis using assms by (simp add: multiThreadCopy_def)
next
  case (Inr x)
  then obtain r tr0 noseek where sel: "selectOpenChunkWriter ci f src = Inr ((r, tr0), noseek)"
    by (cases x) auto
  have tr0: "EvWait werr \<notin> set tr0"
    using selected_events [OF sel] by auto
  show ?thesis
    using assms sel tr0
    by (auto simp add: multiThreadCopy_def case_prod_beta split: if_splits sum.splits)
qed


lemma run_shape:
  assumes "EvWait werr \<in> set (snd (multiThreadCopy ci f src sch conc))"
  shows "\<exists>info w noseek tr0 n.
           selectOpenChunkWriter ci f src = Inr ((Inr (Inr (info, w)), tr0), noseek)
           \<and> set tr0 \<subseteq> range EvOpenWriterAt
           \<and> multiThreadCopy ci f src sch conc =
               (Inr (fst (finish f w werr)),
                tr0 @ EvOpenChunkWriter (Inr info)
                  # EvSetLimit (planConcurrency ci (capChunkSize info (srcSize src)) n conc)
                  # map EvGo (spawnLoop (ctxErr sch) 0 (nat (sint n)))
                  @ snd (finish f w werr)
                  @ deferred f (capChunkSize info (srcSize src)) w (snd (fst (finish f w werr))))"
proof -
  obtain info where "EvOpenChunkWriter (Inr info) \<in> set (snd (multiThreadCopy ci f src sch conc))"
    using multiThreadCopy_waited_opened [OF assms] by blast
  then obtain w noseek tr0 where
    sel: "selectOpenChunkWriter ci f src = Inr ((Inr (Inr (info, w)), tr0), noseek)" and
    run: "multiThreadCopy ci f src sch conc =
               (fst (transfer ci f src sch conc noseek info w),
                tr0 @ EvOpenChunkWriter (Inr info) # snd (transfer ci f src sch conc noseek info w))"
    using multiThreadCopy_opened by blast
  have tr0: "set tr0 \<subseteq> range EvOpenWriterAt" using selected_events [OF sel] .
  then have "EvWait werr \<notin> set tr0" by auto
  then have "EvWait werr \<in> set (snd (transfer ci f src sch conc noseek info w))"
    using assms run by simp
  then obtain n where
    "transfer ci f src sch conc noseek info w =
              (Inr (fst (finish f w werr)),
               EvSetLimit (planConcurrency ci (capChunkSize info (srcSize src)) n conc)
                 # map EvGo (spawnLoop (ctxErr sch) 0 (nat (sint n)))
                 @ snd (finish f w werr)
                 @ deferred f (capChunkSize info (srcSize src)) w (snd (fst (finish f w werr))))"
    using transfer_waited by blast
  then have "multiThreadCopy ci f src sch conc =
               (Inr (fst (finish f w werr)),
                tr0 @ EvOpenChunkWriter (Inr info)
                  # EvSetLimit (planConcurrency ci (capChunkSize info (srcSize src)) n conc)
                  # map EvGo (spawnLoop (ctxErr sch) 0 (nat (sint n)))
                  @ snd (finish f w werr)
                  @ deferred f (capChunkSize info (srcSize src)) w (snd (fst (finish f w werr))))"
    using run by simp
  then show ?thesis using sel tr0 by blast
qed

lemma aborts_append [simp]: "aborts (xs @ ys) = aborts xs + aborts ys"
  by (simp add: aborts_def)

lemma aborts_Cons:
  "aborts (e # tr) = (case e of EvAbort _ \<Rightarrow> 1 | _ \<Rightarrow> 0) + aborts tr"
  by (cases e) (simp_all add: aborts_def)

lemma aborts_none: "(\<And>a. EvAbort a \<notin> set tr) \<Longrightarrow> aborts tr = 0"
  by (induction tr) (auto simp add: aborts_def split: event.splits)

lemma aborts_deferred:
  "aborts (deferred f info w err) = (if err \<noteq> None \<and> \<not> LeavePartsOnError info then 1 else 0)"
  by (simp add: deferred_def aborts_Cons aborts_def)

lemma aborts_finish: "aborts (snd (finish f w err)) = 0"
  by (rule aborts_none) (auto dest: finish_events)

lemma run_info:
  assumes "selectOpenChunkWriter ci f src = Inr ((Inr (Inr (info, w)), tr0), noseek)"
      and "set tr0 \<subseteq> range EvOpenWriterAt"
      and "EvOpenChunkWriter (Inr info') \<in> set (tr0 @ EvOpenChunkWriter (Inr info) # EvSetLimit c
              # map EvGo spawned @ snd (finish f w werr) @ deferred f di w e)"
  shows "info' = info"
  using assms(2,3) by (auto dest: finish_events deferred_events)

text \<open>The outcome of \<open>Abort\<close> reaches nothing but the trace.\<close>

lemma copyChunk_abort_irrelevant:
  "copyChunk (f\<lparr>nativeAbort := a, abortNewObject := b, Remove := c\<rparr>) src mc chunk w
     = copyChunk f src mc chunk w"
  by (simp add: copyChunk_def writer_WriteChunk_def
        cong: option.case_cong sum.case_cong prod.case_cong chunkWriter.case_cong if_cong)

lemma finish_abort_irrelevant:
  "finish (f\<lparr>nativeAbort := a, abortNewObject := b, Remove := c\<rparr>) w err = finish f w err"
  by (simp add: finish_def writer_Close_def
        cong: option.case_cong sum.case_cong chunkWriter.case_cong if_cong)

lemma select_abort_irrelevant:
  "selectOpenChunkWriter ci (f\<lparr>nativeAbort := a, abortNewObject := b, Remove := c\<rparr>) src
     = selectOpenChunkWriter ci f src"
  by (simp add: selectOpenChunkWriter_def cong: option.case_cong)

lemma transfer_abort_irrelevant:
  "fst (transfer ci (f\<lparr>nativeAbort := a, abortNewObject := b, Remove := c\<rparr>) src sch conc noseek info w)
     = fst (transfer ci f src sch conc noseek info w)"
  unfolding transfer_def Let_def case_prod_beta copyChunk_abort_irrelevant finish_abort_irrelevant
  by (simp split: sum.splits)

lemma multiThreadCopy_abort_irrelevant:
  "fst (multiThreadCopy ci (f\<lparr>nativeAbort := a, abortNewObject := b, Remove := c\<rparr>) src sch conc)
     = fst (multiThreadCopy ci f src sch conc)"
  unfolding multiThreadCopy_def select_abort_irrelevant
  by (simp add: transfer_abort_irrelevant case_prod_beta split: sum.splits prod.splits)

text \<open>\<open>g.Wait\<close> returns nil exactly when every spawned chunk copy returned nil, and an
  error that it returns is the error of a spawned chunk copy.\<close>

lemma Wait_nil_iff:
  "Wait order spawned result = Inr None \<longleftrightarrow> (\<forall>c \<in> set spawned. result c = Inr None)"
proof
  define xs where "xs = filter (\<lambda>c. result c \<noteq> Inr None) (filter (\<lambda>c. c \<in> set spawned) order @ spawned)"
  assume W: "Wait order spawned result = Inr None"
  then have np: "\<not> (\<exists>c \<in> set spawned. isl (result c))"
    by (auto simp add: Wait_def split: if_splits)
  have Wx: "(case xs of [] \<Rightarrow> Inr None | c # _ \<Rightarrow> result c) = Inr None"
    using W np unfolding Wait_def xs_def by simp
  show "\<forall>c \<in> set spawned. result c = Inr None"
  proof
    fix c assume c: "c \<in> set spawned"
    show "result c = Inr None"
    proof (rule ccontr)
      assume "result c \<noteq> Inr None"
      then have "c \<in> set xs" using c by (simp add: xs_def)
      then obtain d ds where d: "xs = d # ds" by (cases xs) auto
      then have "d \<in> set xs" by simp
      then have "result d \<noteq> Inr None" by (auto simp add: xs_def)
      moreover have "result d = Inr None" using Wx d by simp
      ultimately show False by simp
    qed
  qed
next
  assume A: "\<forall>c \<in> set spawned. result c = Inr None"
  then have "filter (\<lambda>c. result c \<noteq> Inr None) (filter (\<lambda>c. c \<in> set spawned) order @ spawned) = []"
    by (auto simp add: filter_empty_conv)
  moreover have "\<not> (\<exists>c \<in> set spawned. isl (result c))" using A by auto
  ultimately show "Wait order spawned result = Inr None" by (simp add: Wait_def)
qed

lemma Wait_error_of_chunk:
  assumes "Wait order spawned result = Inr (Some e)"
  shows "\<exists>c \<in> set spawned. result c = Inr (Some e)"
proof -
  define xs where "xs = filter (\<lambda>c. result c \<noteq> Inr None) (filter (\<lambda>c. c \<in> set spawned) order @ spawned)"
  have np: "\<not> (\<exists>c \<in> set spawned. isl (result c))"
    using assms by (auto simp add: Wait_def split: if_splits)
  have Wx: "(case xs of [] \<Rightarrow> Inr None | c # _ \<Rightarrow> result c) = Inr (Some e)"
    using assms np unfolding Wait_def xs_def by simp
  then obtain d ds where d: "xs = d # ds" by (cases xs) auto
  then have "d \<in> set xs" by simp
  then have "d \<in> set spawned" by (auto simp add: xs_def)
  moreover have "result d = Inr (Some e)" using Wx d by simp
  ultimately show ?thesis by blast
qed

subsection \<open>Closing, aborting and the error returned\<close>

lemma run_Close:
  assumes "set tr0 \<subseteq> range EvOpenWriterAt"
      and "EvClose x \<in> set (tr0 @ EvOpenChunkWriter (Inr info) # EvSetLimit c
              # map EvGo spawned @ snd (finish f w werr) @ deferred f di w e)"
  shows "x = writer_Close f w"
  using assms by (auto dest: finish_Close deferred_events)

lemma aborts_run:
  assumes "set tr0 \<subseteq> range EvOpenWriterAt"
  shows "aborts (tr0 @ EvOpenChunkWriter (Inr info) # EvSetLimit c
              # map EvGo spawned @ snd (finish f w werr) @ deferred f di w e)
           = (if e \<noteq> None \<and> \<not> LeavePartsOnError di then 1 else 0)"
proof -
  have "aborts tr0 = 0" using assms by (intro aborts_none) auto
  moreover have "aborts (map EvGo spawned) = 0" by (intro aborts_none) auto
  ultimately show ?thesis
    by (simp add: aborts_Cons aborts_finish aborts_deferred)
qed

text \<open>
  Claim C7. In a run in which \<open>g.Wait\<close> returned nil (every chunk copy that was started
  returned nil) and \<open>Close\<close> returned an error, \<open>multiThreadCopy\<close> returns no object and
  the error that wraps the error of \<open>Close\<close>.
\<close>

theorem close_error_fails_transfer:
  assumes "EvWait None \<in> set (snd (multiThreadCopy ci f src sch conc))"
      and "EvClose (Some ce) \<in> set (snd (multiThreadCopy ci f src sch conc))"
  shows "fst (multiThreadCopy ci f src sch conc) =
           Inr (None, Some (Errorf ''multi-thread copy: failed to close object after copy'' (Some ce)))"
proof -
  obtain info w noseek tr0 n where
    tr0: "set tr0 \<subseteq> range EvOpenWriterAt" and
    run: "multiThreadCopy ci f src sch conc =
               (Inr (fst (finish f w None)),
                tr0 @ EvOpenChunkWriter (Inr info)
                  # EvSetLimit (planConcurrency ci (capChunkSize info (srcSize src)) n conc)
                  # map EvGo (spawnLoop (ctxErr sch) 0 (nat (sint n)))
                  @ snd (finish f w None)
                  @ deferred f (capChunkSize info (srcSize src)) w (snd (fst (finish f w None))))"
    using run_shape [OF assms(1)] by blast
  have "writer_Close f w = Some ce"
    using run_Close [OF tr0] assms(2) unfolding run snd_conv by metis
  then show ?thesis using run by (simp add: finish_close_error)
qed


lemma ex_run_close_fails:
  "multiThreadCopy ex_ci (ex_dest\<lparr>nativeClose := Some (New ''commit refused'')\<rparr>) (ex_src 150) ex_sched 4 =
     (Inr (None, Some (Errorf ''multi-thread copy: failed to close object after copy''
                         (Some (New ''commit refused'')))),
      [EvOpenChunkWriter (Inr ex_info), EvSetLimit 4, EvGo 0, EvGo 1, EvGo 2, EvWait None,
       EvClose (Some (New ''commit refused'')), EvCancel, EvAbort None, EvCancel])"
  by code_simp

theorem close_error_fails_transfer_witness:
  "EvWait None \<in> set (snd (multiThreadCopy ex_ci (ex_dest\<lparr>nativeClose := Some (New ''commit refused'')\<rparr>)
                              (ex_src 150) ex_sched 4))
   \<and> EvClose (Some (New ''commit refused''))
       \<in> set (snd (multiThreadCopy ex_ci (ex_dest\<lparr>nativeClose := Some (New ''commit refused'')\<rparr>)
                      (ex_src 150) ex_sched 4))
   \<and> fst (multiThreadCopy ex_ci (ex_dest\<lparr>nativeClose := Some (New ''commit refused'')\<rparr>)
             (ex_src 150) ex_sched 4) =
       Inr (None, Some (Errorf ''multi-thread copy: failed to close object after copy''
                          (Some (New ''commit refused''))))"
proof -
  let ?run = "multiThreadCopy ex_ci (ex_dest\<lparr>nativeClose := Some (New ''commit refused'')\<rparr>)
                (ex_src 150) ex_sched 4"
  have h1: "EvWait None \<in> set (snd ?run)" by (simp add: ex_run_close_fails)
  have h2: "EvClose (Some (New ''commit refused'')) \<in> set (snd ?run)" by (simp add: ex_run_close_fails)
  from close_error_fails_transfer [OF h1 h2] h1 h2 show ?thesis by blast
qed

text \<open>
  Claim C8. In a run that opened its writer with \<open>info\<close> and reached \<open>g.Wait\<close>, where
  \<open>g.Wait\<close> returned an error (a chunk copy failed) or \<open>Close\<close> did: \<open>Abort\<close> is called
  once when \<open>LeavePartsOnError\<close> of \<open>info\<close> is false and not at all when it is true;
  no object is returned, and the error returned is the one \<open>g.Wait\<close> returned or else
  the error of \<open>Close\<close>, wrapped; and what \<open>multiThreadCopy\<close> returns is the same
  whatever \<open>Abort\<close> and the calls it makes return.
\<close>

theorem abort_once_error_kept:
  assumes "EvOpenChunkWriter (Inr info) \<in> set (snd (multiThreadCopy ci f src sch conc))"
      and "EvWait werr \<in> set (snd (multiThreadCopy ci f src sch conc))"
      and "EvClose cerr \<in> set (snd (multiThreadCopy ci f src sch conc))"
      and "werr \<noteq> None \<or> cerr \<noteq> None"
  shows "aborts (snd (multiThreadCopy ci f src sch conc)) = (if LeavePartsOnError info then 0 else 1)
       \<and> fst (multiThreadCopy ci f src sch conc) =
           Inr (None, if werr \<noteq> None then werr
                      else Some (Errorf ''multi-thread copy: failed to close object after copy'' cerr))
       \<and> (\<forall>a b c. fst (multiThreadCopy ci (f\<lparr>nativeAbort := a, abortNewObject := b, Remove := c\<rparr>)
                          src sch conc)
                   = fst (multiThreadCopy ci f src sch conc))"
proof -
  obtain info' w noseek tr0 n where
    sel: "selectOpenChunkWriter ci f src = Inr ((Inr (Inr (info', w)), tr0), noseek)" and
    tr0: "set tr0 \<subseteq> range EvOpenWriterAt" and
    run: "multiThreadCopy ci f src sch conc =
               (Inr (fst (finish f w werr)),
                tr0 @ EvOpenChunkWriter (Inr info')
                  # EvSetLimit (planConcurrency ci (capChunkSize info' (srcSize src)) n conc)
                  # map EvGo (spawnLoop (ctxErr sch) 0 (nat (sint n)))
                  @ snd (finish f w werr)
                  @ deferred f (capChunkSize info' (srcSize src)) w (snd (fst (finish f w werr))))"
    using run_shape [OF assms(2)] by blast
  have info: "info' = info"
    using run_info [OF sel tr0] assms(1) unfolding run snd_conv by metis
  have close: "cerr = writer_Close f w"
    using run_Close [OF tr0] assms(3) unfolding run snd_conv by metis
  have res: "fst (finish f w werr) =
               (None, if werr \<noteq> None then werr
                      else Some (Errorf ''multi-thread copy: failed to close object after copy'' cerr))"
  proof (cases werr)
    case None
    then obtain ce where "cerr = Some ce" using assms(4) by auto
    then show ?thesis using None close finish_close_error [of f w ce] by simp
  next
    case (Some e)
    then show ?thesis using finish_chunk_error [of werr f w] by simp
  qed
  then have err: "snd (fst (finish f w werr)) \<noteq> None" using assms(4) by auto
  have "aborts (snd (multiThreadCopy ci f src sch conc)) = (if LeavePartsOnError info then 0 else 1)"
    unfolding run snd_conv using aborts_run [OF tr0] err info by simp
  then show ?thesis using run res multiThreadCopy_abort_irrelevant by simp
qed


lemma ex_run_chunk_fails:
  "multiThreadCopy ex_ci
     (ex_dest\<lparr>nativeWriteChunk := (\<lambda>chunk. if chunk = 1 then (- 1, Some (New ''boom'')) else (64, None)),
               nativeAbort := Some (New ''abort failed'')\<rparr>)
     (ex_src 300) (ex_sched\<lparr>ctxErr := (\<lambda>chunk. 3 \<le> chunk)\<rparr>) 4 =
     (Inr (None, Some (Errorf ''multi-thread copy: failed to write chunk'' (Some (New ''boom'')))),
      [EvOpenChunkWriter (Inr ex_info), EvSetLimit 4, EvGo 0, EvGo 1, EvGo 2,
       EvWait (Some (Errorf ''multi-thread copy: failed to write chunk'' (Some (New ''boom'')))),
       EvClose None, EvCancel, EvAbort (Some (New ''abort failed'')), EvCancel])"
  by code_simp

theorem abort_once_error_kept_witness:
  "EvOpenChunkWriter (Inr ex_info) \<in> set (snd (multiThreadCopy ex_ci
     (ex_dest\<lparr>nativeWriteChunk := (\<lambda>chunk. if chunk = 1 then (- 1, Some (New ''boom'')) else (64, None)),
               nativeAbort := Some (New ''abort failed'')\<rparr>)
     (ex_src 300) (ex_sched\<lparr>ctxErr := (\<lambda>chunk. 3 \<le> chunk)\<rparr>) 4))
   \<and> EvWait (Some (Errorf ''multi-thread copy: failed to write chunk'' (Some (New ''boom''))))
       \<in> set (snd (multiThreadCopy ex_ci
     (ex_dest\<lparr>nativeWriteChunk := (\<lambda>chunk. if chunk = 1 then (- 1, Some (New ''boom'')) else (64, None)),
               nativeAbort := Some (New ''abort failed'')\<rparr>)
     (ex_src 300) (ex_sched\<lparr>ctxErr := (\<lambda>chunk. 3 \<le> chunk)\<rparr>) 4))
   \<and> EvClose None \<in> set (snd (multiThreadCopy ex_ci
     (ex_dest\<lparr>nativeWriteChunk := (\<lambda>chunk. if chunk = 1 then (- 1, Some (New ''boom'')) else (64, None)),
               nativeAbort := Some (New ''abort failed'')\<rparr>)
     (ex_src 300) (ex_sched\<lparr>ctxErr := (\<lambda>chunk. 3 \<le> chunk)\<rparr>) 4))
   \<and> aborts (snd (multiThreadCopy ex_ci
     (ex_dest\<lparr>nativeWriteChunk := (\<lambda>chunk. if chunk = 1 then (- 1, Some (New ''boom'')) else (64, None)),
               nativeAbort := Some (New ''abort failed'')\<rparr>)
     (ex_src 300) (ex_sched\<lparr>ctxErr := (\<lambda>chunk. 3 \<le> chunk)\<rparr>) 4)) = 1
   \<and> fst (multiThreadCopy ex_ci
     (ex_dest\<lparr>nativeWriteChunk := (\<lambda>chunk. if chunk = 1 then (- 1, Some (New ''boom'')) else (64, None)),
               nativeAbort := Some (New ''abort failed'')\<rparr>)
     (ex_src 300) (ex_sched\<lparr>ctxErr := (\<lambda>chunk. 3 \<le> chunk)\<rparr>) 4)
       = Inr (None, Some (Errorf ''multi-thread copy: failed to write chunk'' (Some (New ''boom''))))"
proof -
  let ?e = "Errorf ''multi-thread copy: failed to write chunk'' (Some (New ''boom''))"
  let ?run = "multiThreadCopy ex_ci
     (ex_dest\<lparr>nativeWriteChunk := (\<lambda>chunk. if chunk = 1 then (- 1, Some (New ''boom'')) else (64, None)),
               nativeAbort := Some (New ''abort failed'')\<rparr>)
     (ex_src 300) (ex_sched\<lparr>ctxErr := (\<lambda>chunk. 3 \<le> chunk)\<rparr>) 4"
  have h1: "EvOpenChunkWriter (Inr ex_info) \<in> set (snd ?run)" by (simp add: ex_run_chunk_fails)
  have h2: "EvWait (Some ?e) \<in> set (snd ?run)" by (simp add: ex_run_chunk_fails)
  have h3: "EvClose None \<in> set (snd ?run)" by (simp add: ex_run_chunk_fails)
  have h4: "Some ?e \<noteq> None \<or> (None :: error option) \<noteq> None" by simp
  have l: "\<not> LeavePartsOnError ex_info" by (simp add: ex_info_def)
  from abort_once_error_kept [OF h1 h2 h3 h4] h1 h2 h3 l show ?thesis by simp
qed

text \<open>
  Claim C9. For a source whose size is negative or zero, \<open>multiThreadCopy\<close> returns no
  object and an error, and the run has no event: neither the chunk writer nor the
  destination was opened, and nothing else was called.
\<close>

theorem invalid_size_rejected:
  assumes "srcSize src \<le>s 0"
  shows "\<exists>e. multiThreadCopy ci f src sch conc = (Inr (None, Some e), [])"
proof (cases "selectOpenChunkWriter ci f src")
  case (Inl e)
  then show ?thesis by (simp add: multiThreadCopy_def)
next
  case (Inr x)
  have "srcSize src <s 0 \<or> srcSize src = 0"
    using assms by (auto simp add: word_sle_eq word_sless_alt signed_eq_0_iff less_le)
  then show ?thesis using Inr
    by (cases x) (auto simp add: multiThreadCopy_def)
qed

theorem invalid_size_rejected_witness:
  "srcSize (ex_src 0) \<le>s 0 \<and> srcSize (ex_src (- 1)) \<le>s 0
   \<and> multiThreadCopy ex_ci ex_dest (ex_src 0) ex_sched 4 =
       (Inr (None, Some (New (''multi-thread copy: can'' @ [CHR 0x27] @ ''t copy zero sized file''))), [])
   \<and> multiThreadCopy ex_ci ex_dest (ex_src (- 1)) ex_sched 4 =
       (Inr (None, Some (New (''multi-thread copy: can'' @ [CHR 0x27] @ ''t copy unknown sized file''))), [])"
proof -
  have h0: "srcSize (ex_src 0) \<le>s 0" by (simp add: ex_src_def)
  have h1: "srcSize (ex_src (- 1)) \<le>s 0" by (simp add: ex_src_def word_sle_eq)
  have r0: "multiThreadCopy ex_ci ex_dest (ex_src 0) ex_sched 4 =
       (Inr (None, Some (New (''multi-thread copy: can'' @ [CHR 0x27] @ ''t copy zero sized file''))), [])"
    by code_simp
  have r1: "multiThreadCopy ex_ci ex_dest (ex_src (- 1)) ex_sched 4 =
       (Inr (None, Some (New (''multi-thread copy: can'' @ [CHR 0x27] @ ''t copy unknown sized file''))), [])"
    by code_simp
  from invalid_size_rejected [OF h0, of ex_ci ex_dest ex_sched 4]
       invalid_size_rejected [OF h1, of ex_ci ex_dest ex_sched 4] h0 h1 r0 r1
  show ?thesis by simp
qed


lemma closes_append [simp]: "closes (xs @ ys) = closes xs + closes ys"
  by (simp add: closes_def)

lemma closes_Cons:
  "closes (e # tr) = (case e of EvClose _ \<Rightarrow> 1 | _ \<Rightarrow> 0) + closes tr"
  by (cases e) (simp_all add: closes_def)

lemma closes_none: "(\<And>a. EvClose a \<notin> set tr) \<Longrightarrow> closes tr = 0"
  by (induction tr) (auto simp add: closes_def split: event.splits)

lemma closes_finish: "closes (snd (finish f w err)) = 1"
proof -
  obtain rest where r: "snd (finish f w err) = [EvWait err, EvClose (writer_Close f w)] @ rest"
      "set rest \<subseteq> {EvNewObject, EvSetModTime}"
    using finish_trace by blast
  have "closes rest = 0" using r(2) by (intro closes_none) auto
  then show ?thesis using r(1) by (simp add: closes_Cons closes_def)
qed

text \<open>
  Whatever \<open>g.Wait\<close> returned, a run that reached it calls \<open>Close\<close> once: line 218
  comes before the test of the error on line 219.
\<close>

lemma Close_whatever_Wait_returned:
  assumes "EvWait werr \<in> set (snd (multiThreadCopy ci f src sch conc))"
  shows "closes (snd (multiThreadCopy ci f src sch conc)) = 1"
proof -
  obtain info w noseek tr0 n where
    tr0: "set tr0 \<subseteq> range EvOpenWriterAt" and
    run: "multiThreadCopy ci f src sch conc =
               (Inr (fst (finish f w werr)),
                tr0 @ EvOpenChunkWriter (Inr info)
                  # EvSetLimit (planConcurrency ci (capChunkSize info (srcSize src)) n conc)
                  # map EvGo (spawnLoop (ctxErr sch) 0 (nat (sint n)))
                  @ snd (finish f w werr)
                  @ deferred f (capChunkSize info (srcSize src)) w (snd (fst (finish f w werr))))"
    using run_shape [OF assms] by blast
  have "closes tr0 = 0" using tr0 by (intro closes_none) auto
  moreover have "closes (map EvGo xs) = 0" for xs by (intro closes_none) auto
  moreover have "closes (deferred f di w e) = 0" for di e
    by (intro closes_none) (auto dest: deferred_events)
  ultimately show ?thesis unfolding run snd_conv by (simp add: closes_Cons closes_finish)
qed

text \<open>
  Claim C6 fails on the code. In the run below the second of five chunks fails;
  \<open>g.Wait\<close> returns its error, and \<open>Close\<close> is called all the same, before \<open>Abort\<close>.
\<close>

theorem close_called_after_chunk_error:
  "snd (multiThreadCopy ex_ci
     (ex_dest\<lparr>nativeWriteChunk := (\<lambda>chunk. if chunk = 1 then (- 1, Some (New ''boom'')) else (64, None))\<rparr>)
     (ex_src 300) (ex_sched\<lparr>ctxErr := (\<lambda>chunk. 3 \<le> chunk)\<rparr>) 4) =
     [EvOpenChunkWriter (Inr ex_info), EvSetLimit 4, EvGo 0, EvGo 1, EvGo 2,
      EvWait (Some (Errorf ''multi-thread copy: failed to write chunk'' (Some (New ''boom'')))),
      EvClose None, EvCancel, EvAbort None, EvCancel]
   \<and> closes (snd (multiThreadCopy ex_ci
     (ex_dest\<lparr>nativeWriteChunk := (\<lambda>chunk. if chunk = 1 then (- 1, Some (New ''boom'')) else (64, None))\<rparr>)
     (ex_src 300) (ex_sched\<lparr>ctxErr := (\<lambda>chunk. 3 \<le> chunk)\<rparr>) 4)) = 1"
  by code_simp

subsection \<open>The unguarded division\<close>

lemma calculateNumChunks_panics_iff:
  "calculateNumChunks sz chunkSize = Inl DivideByZero \<longleftrightarrow> chunkSize = 0"
  by (simp add: calculateNumChunks_def Let_def)

lemma capChunkSize_nonpositive:
  "0 <s sz \<Longrightarrow> ChunkSize info \<le>s 0 \<Longrightarrow> capChunkSize info sz = info"
  by (simp add: capChunkSize_def word_sle_eq word_sless_alt)

lemma native_zero_chunk_size_panics:
  assumes "OpenChunkWriter f = Some (Inr info)" "0 <s srcSize src" "ChunkSize info = 0"
  shows "multiThreadCopy ci f src sch conc = (Inl DivideByZero, [EvOpenChunkWriter (Inr info), EvCancel])"
proof -
  have cap: "capChunkSize info (srcSize src) = info"
    using assms(2,3) by (simp add: capChunkSize_nonpositive)
  have s: "\<not> srcSize src <s 0" "srcSize src \<noteq> 0"
    using assms(2) by (auto simp add: word_sless_alt)
  show ?thesis
    using assms(1,3) s cap
    by (simp add: multiThreadCopy_def selectOpenChunkWriter_def nativeOpenChunkWriter_def
          transfer_def calculateNumChunks_def deferred_def)
qed

lemma adapted_zero_chunk_size_panics:
  assumes "OpenChunkWriter f = None" "OpenWriterAt f = Some None" "0 <s srcSize src"
      and "MultiThreadChunkSize ci = 0"
  shows "multiThreadCopy ci f src sch conc = (Inl DivideByZero, [EvOpenWriterAt None])"
proof -
  have s: "\<not> srcSize src <s 0" "srcSize src \<noteq> 0"
    using assms(3) by (auto simp add: word_sless_alt)
  show ?thesis
    using assms(1,2,4) s
    by (simp add: multiThreadCopy_def selectOpenChunkWriter_def openChunkWriterFromOpenWriterAt_def
          calculateNumChunks_def)
qed

text \<open>
  Claim C10. \<open>calculateNumChunks\<close> returns for every positive chunk size and panics
  exactly for the chunk size 0: nothing in it tests the divisor. The cap of lines
  170-173 leaves a chunk size that is zero or negative as it is when the source's size is
  positive, so that chunk size is the divisor; and when a backend's \<open>Info\<close> has the
  chunk size 0 for a source of positive size, \<open>multiThreadCopy\<close> panics in the division,
  after the writer was opened and before any chunk is copied.
\<close>

theorem division_unguarded:
  "(0 <s chunkSize \<longrightarrow> (\<exists>n. calculateNumChunks sz chunkSize = Inr n))
   \<and> (calculateNumChunks sz chunkSize = Inl DivideByZero \<longleftrightarrow> chunkSize = 0)
   \<and> (0 <s srcSize src \<and> ChunkSize info \<le>s 0 \<longrightarrow>
        ChunkSize (capChunkSize info (srcSize src)) = ChunkSize info
        \<and> ChunkSize (capChunkSize info (srcSize src)) \<le>s 0)
   \<and> (OpenChunkWriter f = Some (Inr info) \<and> 0 <s srcSize src \<and> ChunkSize info = 0 \<longrightarrow>
        multiThreadCopy ci f src sch conc
          = (Inl DivideByZero, [EvOpenChunkWriter (Inr info), EvCancel]))"
proof (intro conjI impI)
  assume "0 <s chunkSize"
  then have "chunkSize \<noteq> 0" by (auto simp add: word_sless_alt)
  then show "\<exists>n. calculateNumChunks sz chunkSize = Inr n"
    by (simp add: calculateNumChunks_def Let_def)
next
  show "calculateNumChunks sz chunkSize = Inl DivideByZero \<longleftrightarrow> chunkSize = 0"
    by (rule calculateNumChunks_panics_iff)
next
  assume a: "0 <s srcSize src \<and> ChunkSize info \<le>s 0"
  then show "ChunkSize (capChunkSize info (srcSize src)) = ChunkSize info"
    by (simp add: capChunkSize_nonpositive)
  from a show "ChunkSize (capChunkSize info (srcSize src)) \<le>s 0"
    by (simp add: capChunkSize_nonpositive)
next
  assume "OpenChunkWriter f = Some (Inr info) \<and> 0 <s srcSize src \<and> ChunkSize info = 0"
  then show "multiThreadCopy ci f src sch conc
          = (Inl DivideByZero, [EvOpenChunkWriter (Inr info), EvCancel])"
    using native_zero_chunk_size_panics by blast
qed

theorem division_unguarded_witness:
  "0 <s (64 :: int64) \<and> calculateNumChunks 150 64 = Inr 3
   \<and> calculateNumChunks 150 0 = Inl DivideByZero
   \<and> 0 <s srcSize (ex_src 150) \<and> ChunkSize (ex_info\<lparr>ChunkSize := 0\<rparr>) \<le>s 0
   \<and> ChunkSize (capChunkSize (ex_info\<lparr>ChunkSize := 0\<rparr>) (srcSize (ex_src 150))) = 0
   \<and> OpenChunkWriter (ex_dest\<lparr>OpenChunkWriter := Some (Inr (ex_info\<lparr>ChunkSize := 0\<rparr>))\<rparr>)
       = Some (Inr (ex_info\<lparr>ChunkSize := 0\<rparr>))
   \<and> multiThreadCopy ex_ci (ex_dest\<lparr>OpenChunkWriter := Some (Inr (ex_info\<lparr>ChunkSize := 0\<rparr>))\<rparr>)
        (ex_src 150) ex_sched 4
       = (Inl DivideByZero, [EvOpenChunkWriter (Inr (ex_info\<lparr>ChunkSize := 0\<rparr>)), EvCancel])"
proof -
  let ?info = "ex_info\<lparr>ChunkSize := 0\<rparr>"
  let ?f = "ex_dest\<lparr>OpenChunkWriter := Some (Inr ?info)\<rparr>"
  have p: "0 <s (64 :: int64)" by (simp add: word_sless_alt)
  have c: "calculateNumChunks 150 64 = Inr 3" by code_simp
  have s: "0 <s srcSize (ex_src 150)" by (simp add: ex_src_def word_sless_alt)
  have z: "ChunkSize ?info = 0" "ChunkSize ?info \<le>s 0" by simp_all
  have o: "OpenChunkWriter ?f = Some (Inr ?info)" by simp
  from division_unguarded [of 64 150 "ex_src 150" ?info ?f ex_ci ex_sched 4]
       division_unguarded [of 0 150 "ex_src 150" ?info ?f ex_ci ex_sched 4]
  show ?thesis using p c s z o by simp
qed

end
